theory Spec2Isabelle
  imports Main
begin

section \<open>Python values and errors\<close>

text \<open>
  The fields of a version number hold dynamically typed values: \<open>None\<close>, an integer, or a
  string (the wildcard marker is the string \<open>"x"\<close> itself). Python integers are modelled
  as unbounded \<open>int\<close>: the split of Python 2 integers into \<open>int\<close> and \<open>long\<close> at
  \<open>sys.maxint\<close> is not modelled.
\<close>

datatype pyval = PyNone | PyInt int | PyStr string

text \<open>
  Every failure of \<open>version.py\<close> is a \<open>ValueError\<close>; the reason records which
  \<open>raise\<close> (or which builtin) produced it. \<open>TypeError\<close> is what \<open>int()\<close> raises on a value
  that is neither a number nor a string.
\<close>

datatype reason =
    InvalidLiteral
  | MissingMicro
  | WildcardMajor
  | InvalidMajor
  | UnexpectedMicro
  | InvalidMinor
  | InvalidMicro
  | AllUnset
  | MissingNumber
  | WildcardVersion
  | MissingReleaselevel
  | InvalidReleaselevel
  | InvalidSeries
  | InvalidArch
  | MissingArch
  | MissingSeries

datatype error = TypeError | ValueError reason

section \<open>Builtins of the language used by the module\<close>

text \<open>\<open>str.partition(sep)\<close> and \<open>str.rpartition(sep)\<close> for a one-character separator.\<close>

definition str_partition :: "char \<Rightarrow> string \<Rightarrow> string \<times> string \<times> string" where
  "str_partition c s =
     (if c \<in> set s
      then (takeWhile (\<lambda>d. d \<noteq> c) s, [c], drop 1 (dropWhile (\<lambda>d. d \<noteq> c) s))
      else (s, [], []))"

definition str_rpartition :: "char \<Rightarrow> string \<Rightarrow> string \<times> string \<times> string" where
  "str_rpartition c s =
     (if c \<in> set s
      then (rev (drop 1 (dropWhile (\<lambda>d. d \<noteq> c) (rev s))), [c],
            rev (takeWhile (\<lambda>d. d \<noteq> c) (rev s)))
      else ([], [], s))"

text \<open>\<open>str.startswith(prefix)\<close>.\<close>

definition startswith :: "string \<Rightarrow> string \<Rightarrow> bool" where
  "startswith s p = (take (length p) s = p)"

text \<open>
  \<open>str.lower()\<close> on byte strings: the letters \<open>A\<close> (code 65) to \<open>Z\<close> (code 90) are
  mapped to \<open>a\<close> to \<open>z\<close>, nothing else.
\<close>

definition lower_char :: "char \<Rightarrow> char" where
  "lower_char c =
     (if (65::nat) \<le> of_char c \<and> of_char c \<le> (90::nat)
      then char_of (of_char c + (32::nat)) else c)"

definition lower :: "string \<Rightarrow> string" where
  "lower s = map lower_char s"

text \<open>Whitespace as \<open>str.strip()\<close> and \<open>int()\<close> see it: space, tab, LF, VT, FF, CR.\<close>

definition isspace :: "char \<Rightarrow> bool" where
  "isspace c = (c \<in> set [CHR '' '', CHR 0x09, CHR 0x0A, CHR 0x0B, CHR 0x0C, CHR 0x0D])"

definition strip :: "string \<Rightarrow> string" where
  "strip s = rev (dropWhile isspace (rev (dropWhile isspace s)))"

text \<open>The decimal digits \<open>0\<close> (code 48) to \<open>9\<close> (code 57).\<close>

definition isdigit :: "char \<Rightarrow> bool" where
  "isdigit c = ((48::nat) \<le> of_char c \<and> of_char c \<le> (57::nat))"

definition digit_val :: "char \<Rightarrow> nat" where
  "digit_val c = of_char c - 48"

definition digits_value :: "string \<Rightarrow> nat" where
  "digits_value ds = foldl (\<lambda>acc c. 10 * acc + digit_val c) 0 ds"

text \<open>
  \<open>int(s)\<close> for a string, base 10: whitespace around the literal is skipped, then an
  optional sign, then (in the Python 2 runtime this module is written for) whitespace
  again, then one or more decimal digits and nothing else. \<open>None\<close> stands for the
  \<open>ValueError\<close> "invalid literal".
\<close>

definition int_of_str :: "string \<Rightarrow> int option" where
  "int_of_str s =
     (let t = strip s;
          neg = (t \<noteq> [] \<and> hd t = CHR ''-'');
          u = (if t \<noteq> [] \<and> (hd t = CHR ''-'' \<or> hd t = CHR ''+'') then tl t else t);
          ds = dropWhile isspace u
      in if ds \<noteq> [] \<and> list_all isdigit ds
         then Some (if neg then - int (digits_value ds) else int (digits_value ds))
         else None)"

text \<open>\<open>int(x)\<close> on a value.\<close>

fun py_int :: "pyval \<Rightarrow> error + int" where
  "py_int PyNone = Inl TypeError"
| "py_int (PyInt n) = Inr n"
| "py_int (PyStr s) =
     (case int_of_str s of None \<Rightarrow> Inl (ValueError InvalidLiteral) | Some n \<Rightarrow> Inr n)"

text \<open>\<open>str(n)\<close> for an integer: decimal digits, with a minus sign when negative.\<close>

definition digit_char :: "nat \<Rightarrow> char" where
  "digit_char d = char_of (48 + d)"

fun str_nat :: "nat \<Rightarrow> string" where
  "str_nat n = (if n < 10 then [digit_char n] else str_nat (n div 10) @ [digit_char (n mod 10)])"

definition str_int :: "int \<Rightarrow> string" where
  "str_int n = (if n < 0 then CHR ''-'' # str_nat (nat (- n)) else str_nat (nat n))"

text \<open>What \<open>"{}".format(x)\<close> renders.\<close>

fun py_format :: "pyval \<Rightarrow> string" where
  "py_format PyNone = ''None''"
| "py_format (PyInt n) = str_int n"
| "py_format (PyStr s) = s"

text \<open>Truth value of a value in a condition.\<close>

fun truthy :: "pyval \<Rightarrow> bool" where
  "truthy PyNone = False"
| "truthy (PyInt n) = (n \<noteq> 0)"
| "truthy (PyStr s) = (s \<noteq> [])"

text \<open>\<open>isinstance(x, int)\<close>, and \<open>x < 0\<close> on an integer.\<close>

fun isinstance_int :: "pyval \<Rightarrow> bool" where
  "isinstance_int (PyInt n) = True"
| "isinstance_int x = False"

fun negative :: "pyval \<Rightarrow> bool" where
  "negative (PyInt n) = (n < 0)"
| "negative x = False"

section \<open>version.py\<close>

definition WILDCARD :: pyval where
  "WILDCARD = PyStr ''x''"

definition RELEASE_ALPHA :: string where "RELEASE_ALPHA = ''alpha''"
definition RELEASE_BETA :: string where "RELEASE_BETA = ''beta''"
definition RELEASE_CANDIDATE :: string where "RELEASE_CANDIDATE = ''rc''"
definition RELEASE_FINAL :: string where "RELEASE_FINAL = ''final''"

text \<open>
  \<open>_releaselevel_matches\<close>: the loop over the candidate kinds returns at the first kind
  that is a prefix of the level; the \<open>else\<close> of the \<open>for\<close> gives \<open>False\<close>.
\<close>

fun releaselevel_matches :: "string \<Rightarrow> string list \<Rightarrow> bool" where
  "releaselevel_matches level [] = False"
| "releaselevel_matches level (kind # candidates) =
     (if startswith level kind
      then (case int_of_str (drop (length kind) level) of
              None \<Rightarrow> False
            | Some num \<Rightarrow> if num < 1 then False else True)
      else releaselevel_matches level candidates)"

definition is_dev_releaselevel :: "string \<Rightarrow> bool" where
  "is_dev_releaselevel level =
     releaselevel_matches level [RELEASE_ALPHA, RELEASE_BETA, RELEASE_CANDIDATE]"

definition is_valid_releaselevel :: "string \<Rightarrow> bool" where
  "is_valid_releaselevel level =
     (if level = [] \<or> level = RELEASE_FINAL then True else is_dev_releaselevel level)"

definition is_valid_series :: "string \<Rightarrow> bool" where
  "is_valid_series series = True"

definition is_valid_arch :: "string \<Rightarrow> bool" where
  "is_valid_arch arch = True"

text \<open>
  \<open>_parse_number\<close>. The clause \<open>except TypeError, ValueError:\<close> catches \<open>TypeError\<close> only
  (and binds it to the name \<open>ValueError\<close>), so the \<open>ValueError\<close> of \<open>int()\<close> propagates.
\<close>

definition parse_number :: "pyval \<Rightarrow> error + pyval" where
  "parse_number raw =
     (if raw = PyNone \<or> raw = PyStr '''' then Inr PyNone
      else if raw \<in> set [PyStr ''x'', PyStr ''X'', PyStr ''*''] then Inr WILDCARD
      else (case py_int raw of
              Inr n \<Rightarrow> Inr (PyInt n)
            | Inl TypeError \<Rightarrow> Inr raw
            | Inl e \<Rightarrow> Inl e))"

record VersionNumber =
  major :: pyval
  minor :: pyval
  micro :: pyval

definition VersionNumber_validate :: "VersionNumber \<Rightarrow> error + unit" where
  "VersionNumber_validate self =
     (if major self = WILDCARD then Inl (ValueError WildcardMajor)
      else if \<not> isinstance_int (major self) \<or> negative (major self)
        then Inl (ValueError InvalidMajor)
      else if minor self = WILDCARD \<and> micro self \<noteq> PyNone
        then Inl (ValueError UnexpectedMicro)
      else if minor self \<noteq> WILDCARD \<and> (\<not> isinstance_int (minor self) \<or> negative (minor self))
        then Inl (ValueError InvalidMinor)
      else if micro self \<noteq> PyNone \<and> micro self \<noteq> WILDCARD
              \<and> (\<not> isinstance_int (micro self) \<or> negative (micro self))
        then Inl (ValueError InvalidMicro)
      else if \<not> truthy (major self) \<and> \<not> truthy (minor self) \<and> \<not> truthy (micro self)
        then Inl (ValueError AllUnset)
      else Inr ())"

text \<open>\<open>VersionNumber(major, minor, micro)\<close>: \<open>__new__\<close> followed by \<open>__init__\<close>.\<close>

definition VersionNumber_new :: "pyval \<Rightarrow> pyval \<Rightarrow> pyval \<Rightarrow> error + VersionNumber" where
  "VersionNumber_new ma mi mc =
     (case parse_number ma of Inl e \<Rightarrow> Inl e | Inr ma' \<Rightarrow>
      case parse_number mi of Inl e \<Rightarrow> Inl e | Inr mi' \<Rightarrow>
      case parse_number mc of Inl e \<Rightarrow> Inl e | Inr mc' \<Rightarrow>
      (let self = \<lparr>major = ma', minor = mi', micro = mc'\<rparr>
       in case VersionNumber_validate self of Inl e \<Rightarrow> Inl e | Inr _ \<Rightarrow> Inr self))"

definition VersionNumber_parse :: "string \<Rightarrow> error + VersionNumber" where
  "VersionNumber_parse raw =
     (case str_partition CHR ''.'' raw of (ma, _, raw1) \<Rightarrow>
      case str_partition CHR ''.'' raw1 of (mi, sep, mc) \<Rightarrow>
        if sep \<noteq> [] \<and> mc = [] then Inl (ValueError MissingMicro)
        else VersionNumber_new (PyStr ma) (PyStr mi) (PyStr mc))"

definition VersionNumber_str :: "VersionNumber \<Rightarrow> string" where
  "VersionNumber_str self =
     (if micro self = PyNone
      then py_format (major self) @ ''.'' @ py_format (minor self)
      else py_format (major self) @ ''.'' @ py_format (minor self) @ ''.'' @ py_format (micro self))"

definition iswildcard :: "VersionNumber \<Rightarrow> bool" where
  "iswildcard self =
     (if minor self = WILDCARD then True
      else if micro self = PyNone \<or> micro self = WILDCARD then True
      else False)"

text \<open>
  \<open>NamedTuple._replace\<close> builds a new instance through the class, so the replaced value
  is parsed and validated again.
\<close>

definition replace_minor :: "VersionNumber \<Rightarrow> pyval \<Rightarrow> error + VersionNumber" where
  "replace_minor self x = VersionNumber_new (major self) x (micro self)"

definition replace_micro :: "VersionNumber \<Rightarrow> pyval \<Rightarrow> error + VersionNumber" where
  "replace_micro self x = VersionNumber_new (major self) (minor self) x"

definition apply_pattern :: "VersionNumber \<Rightarrow> VersionNumber \<Rightarrow> error + VersionNumber" where
  "apply_pattern self version =
     (case (if minor self = WILDCARD then replace_minor self (minor version) else Inr self) of
        Inl e \<Rightarrow> Inl e
      | Inr applied \<Rightarrow>
          if micro applied = PyNone \<or> micro applied = WILDCARD
          then replace_micro applied (micro version)
          else Inr applied)"

text \<open>\<open>VersionNumber.match\<close> on a candidate that is already a \<open>VersionNumber\<close>.\<close>

definition match :: "VersionNumber \<Rightarrow> VersionNumber \<Rightarrow> error + bool" where
  "match self version =
     (case apply_pattern self version of
        Inl e \<Rightarrow> Inl e
      | Inr expected \<Rightarrow> Inr (version = expected))"

text \<open>
  The \<open>number\<close> argument of \<open>Version(...)\<close>: \<open>None\<close>, a string to be parsed, or a
  \<open>VersionNumber\<close>.
\<close>

datatype number_arg = NoNumber | NumberStr string | Number VersionNumber

record Version =
  number :: VersionNumber
  releaselevel :: string
  series :: "string option"
  arch :: "string option"

text \<open>Truth value of an optional string: \<open>None\<close> and \<open>""\<close> are false.\<close>

fun present :: "string option \<Rightarrow> bool" where
  "present None = False"
| "present (Some s) = (s \<noteq> [])"

text \<open>
  \<open>Version._validate\<close>, on the four fields as \<open>__new__\<close> stored them; a number that is
  \<open>None\<close> or \<open>""\<close> is the \<open>None\<close> here.
\<close>

definition Version_validate ::
  "VersionNumber option \<Rightarrow> string \<Rightarrow> string option \<Rightarrow> string option \<Rightarrow> error + unit" where
  "Version_validate num level ser ar =
     (case num of
        None \<Rightarrow> Inl (ValueError MissingNumber)
      | Some n \<Rightarrow>
          if iswildcard n then Inl (ValueError WildcardVersion)
          else if level = [] then Inl (ValueError MissingReleaselevel)
          else if \<not> is_valid_releaselevel level then Inl (ValueError InvalidReleaselevel)
          else if present ser \<and> \<not> is_valid_series (the ser) then Inl (ValueError InvalidSeries)
          else if present ar \<and> \<not> is_valid_arch (the ar) then Inl (ValueError InvalidArch)
          else if present ser \<and> \<not> present ar then Inl (ValueError MissingArch)
          else if present ar \<and> \<not> present ser then Inl (ValueError MissingSeries)
          else Inr ())"

text \<open>\<open>Version(number, releaselevel, series, arch)\<close>: \<open>__new__\<close> followed by \<open>__init__\<close>.\<close>

definition Version_new ::
  "number_arg \<Rightarrow> string option \<Rightarrow> string option \<Rightarrow> string option \<Rightarrow> error + Version" where
  "Version_new num level ser ar =
     (case (case num of
              NoNumber \<Rightarrow> Inr None
            | NumberStr s \<Rightarrow>
                if s \<noteq> [] then (case VersionNumber_parse s of Inl e \<Rightarrow> Inl e | Inr n \<Rightarrow> Inr (Some n))
                else Inr None
            | Number n \<Rightarrow> Inr (Some n)) of
        Inl e \<Rightarrow> Inl e
      | Inr num' \<Rightarrow>
          (let level' = (if present level then lower (the level) else RELEASE_FINAL);
               ser' = (if present ser then Some (lower (the ser)) else None);
               ar' = (if present ar then Some (lower (the ar)) else None)
           in case Version_validate num' level' ser' ar' of
                Inl e \<Rightarrow> Inl e
              | Inr _ \<Rightarrow>
                  Inr \<lparr>number = the num', releaselevel = level', series = ser', arch = ar'\<rparr>))"

text \<open>
  The part of \<open>Version.parse\<close> that reads the text after the number: it gives the level,
  the series and the arch that are passed on.
\<close>

definition parse_tail :: "string \<Rightarrow> string \<times> string option \<times> string option" where
  "parse_tail raw =
     (case str_partition CHR ''-'' raw of (level, sep, raw1) \<Rightarrow>
        if sep \<noteq> [] then
          (case str_partition CHR ''-'' raw1 of (ser, sep1, ar) \<Rightarrow>
             if sep1 = [] then (RELEASE_FINAL, Some level, Some ser)
             else (level, Some ser, Some ar))
        else (level, None, None))"

definition Version_parse :: "string \<Rightarrow> error + Version" where
  "Version_parse raw =
     (case str_partition CHR ''-'' raw of (numstr, sep, raw1) \<Rightarrow>
      case VersionNumber_parse numstr of
        Inl e \<Rightarrow> Inl e
      | Inr num \<Rightarrow>
          if sep = [] then Version_new (Number num) None None None
          else
            (case parse_tail raw1 of (level, ser, ar) \<Rightarrow>
               if micro num = PyNone \<and> is_dev_releaselevel level
               then (case replace_micro num (PyInt 0) of
                       Inl e \<Rightarrow> Inl e
                     | Inr num' \<Rightarrow> Version_new (Number num') (Some level) ser ar)
               else Version_new (Number num) (Some level) ser ar))"

definition Version_str :: "Version \<Rightarrow> string" where
  "Version_str self =
     (let ver = VersionNumber_str (number self);
          ver1 = (if releaselevel self \<noteq> RELEASE_FINAL
                  then (if micro (number self) = PyInt 0
                        then fst (str_rpartition CHR ''.'' ver) else ver)
                       @ ''-'' @ releaselevel self
                  else ver);
          ver2 = (if present (series self) then ver1 @ ''-'' @ the (series self) else ver1)
      in if present (arch self) then ver2 @ ''-'' @ the (arch self) else ver2)"

section \<open>Notions used in the proofs\<close>

text \<open>A field that validation lets through when it is set: the wildcard or a non-negative integer.\<close>

definition field_ok :: "pyval \<Rightarrow> bool" where
  "field_ok f = (f = WILDCARD \<or> (\<exists>k\<ge>0. f = PyInt k))"

section \<open>Properties\<close>

subsection \<open>Characters, digits and integer literals\<close>

lemma lower_char_idem: "lower_char (lower_char c) = lower_char c"
  by (simp add: lower_char_def)

lemma digit_val_digit_char: "d < 10 \<Longrightarrow> digit_val (digit_char d) = d"
  by (simp add: digit_val_def digit_char_def)

lemma isdigit_digit_char: "d < 10 \<Longrightarrow> isdigit (digit_char d)"
  by (simp add: digit_char_def isdigit_def)

lemma isdigit_not_space: "isdigit c \<Longrightarrow> \<not> isspace c"
  by (auto simp: isdigit_def isspace_def)

lemma isdigit_not_special:
  "isdigit c \<Longrightarrow> c \<noteq> CHR ''-'' \<and> c \<noteq> CHR ''+'' \<and> c \<noteq> CHR ''.''
      \<and> c \<noteq> CHR ''x'' \<and> c \<noteq> CHR ''X'' \<and> c \<noteq> CHR ''*''"
  by (auto simp: isdigit_def)

lemma not_space_special:
  "\<not> isspace CHR ''-''" "\<not> isspace CHR ''+''" "\<not> isspace CHR ''.''"
  "\<not> isspace CHR ''x''" "\<not> isspace CHR ''X''" "\<not> isspace CHR ''*''"
  by (simp_all add: isspace_def)

declare str_nat.simps [simp del]

lemma str_nat_digits: "list_all isdigit (str_nat n)"
proof (induction n rule: str_nat.induct)
  case (1 n)
  show ?case
  proof (cases "n < 10")
    case True
    then show ?thesis by (subst str_nat.simps) (simp add: isdigit_digit_char)
  next
    case False
    then show ?thesis using 1 by (subst str_nat.simps) (simp add: isdigit_digit_char)
  qed
qed

lemma str_nat_nonempty: "str_nat n \<noteq> []"
  by (subst str_nat.simps) simp

lemma digits_value_snoc: "digits_value (ds @ [c]) = 10 * digits_value ds + digit_val c"
  by (simp add: digits_value_def)

lemma digits_value_str_nat: "digits_value (str_nat n) = n"
proof (induction n rule: str_nat.induct)
  case (1 n)
  show ?case
  proof (cases "n < 10")
    case True
    then show ?thesis
      by (subst str_nat.simps) (simp add: digits_value_def digit_val_digit_char)
  next
    case False
    then show ?thesis using 1
      by (subst str_nat.simps) (simp add: digits_value_snoc digit_val_digit_char)
  qed
qed

lemma dropWhile_all: "\<forall>c\<in>set s. P c \<Longrightarrow> dropWhile P s = []"
  by (induction s) auto

lemma dropWhile_all_append: "\<forall>c\<in>set xs. P c \<Longrightarrow> dropWhile P (xs @ ys) = dropWhile P ys"
  by (induction xs) auto

lemma dropWhile_none: "\<forall>c\<in>set s. \<not> P c \<Longrightarrow> dropWhile P s = s"
  by (cases s) auto

lemma strip_no_space: "\<forall>c\<in>set s. \<not> isspace c \<Longrightarrow> strip s = s"
  by (simp add: strip_def dropWhile_none)

lemma str_nat_chars: "c \<in> set (str_nat n) \<Longrightarrow> isdigit c"
  using str_nat_digits [of n] by (simp add: list_all_iff)

lemma int_of_str_str_nat: "int_of_str (str_nat n) = Some (int n)"
proof -
  have ns: "\<forall>c\<in>set (str_nat n). \<not> isspace c"
    using str_nat_chars isdigit_not_space by blast
  have hd: "hd (str_nat n) \<in> set (str_nat n)"
    using str_nat_nonempty by simp
  then have "isdigit (hd (str_nat n))" using str_nat_chars by blast
  then have sign: "hd (str_nat n) \<noteq> CHR ''-''" "hd (str_nat n) \<noteq> CHR ''+''"
    using isdigit_not_special by blast+
  have t: "strip (str_nat n) = str_nat n"
    using ns by (rule strip_no_space)
  have u: "(if str_nat n \<noteq> [] \<and> (hd (str_nat n) = CHR ''-'' \<or> hd (str_nat n) = CHR ''+'')
            then tl (str_nat n) else str_nat n) = str_nat n"
    using sign by simp
  have ds: "dropWhile isspace (str_nat n) = str_nat n"
    using ns by (rule dropWhile_none)
  show ?thesis
    unfolding int_of_str_def Let_def t u ds
    using sign str_nat_nonempty [of n] str_nat_digits [of n]
    by (simp add: digits_value_str_nat)
qed

subsection \<open>Whitespace around a literal\<close>

lemma strip_decomp:
  "\<exists>l r. s = l @ strip s @ r \<and> (\<forall>c\<in>set l. isspace c) \<and> (\<forall>c\<in>set r. isspace c)"
proof -
  let ?u = "dropWhile isspace s"
  have a: "s = takeWhile isspace s @ ?u" by simp
  have "rev (takeWhile isspace (rev ?u) @ dropWhile isspace (rev ?u)) = ?u"
    by (simp only: takeWhile_dropWhile_id rev_rev_ident)
  then have "rev (dropWhile isspace (rev ?u)) @ rev (takeWhile isspace (rev ?u)) = ?u"
    by (simp only: rev_append)
  then have b: "?u = strip s @ rev (takeWhile isspace (rev ?u))"
    by (simp only: strip_def)
  have c: "\<forall>c\<in>set (takeWhile isspace s). isspace c"
    by (metis set_takeWhileD)
  have d: "\<forall>c\<in>set (rev (takeWhile isspace (rev ?u))). isspace c"
    by (metis set_rev set_takeWhileD)
  from a b have "s = takeWhile isspace s @ strip s @ rev (takeWhile isspace (rev ?u))"
    by simp
  with c d show ?thesis by blast
qed

lemma strip_all_space:
  assumes "\<forall>c\<in>set s. isspace c"
  shows "strip s = []"
proof -
  have h: "dropWhile isspace s = []" using assms by (rule dropWhile_all)
  show ?thesis unfolding strip_def h by simp
qed

lemma strip_pad:
  assumes l: "\<forall>c\<in>set l. isspace c" and r: "\<forall>c\<in>set r. isspace c"
  shows "strip (l @ w @ r) = strip w"
proof (cases "\<forall>c\<in>set w. isspace c")
  case True
  then have "\<forall>c\<in>set (l @ w @ r). isspace c" using l r by auto
  then show ?thesis using True by (simp only: strip_all_space)
next
  case False
  have 1: "dropWhile isspace (l @ w @ r) = dropWhile isspace (w @ r)"
    using l by (rule dropWhile_all_append)
  from False obtain x where x: "x \<in> set w" "\<not> isspace x" by blast
  have 2: "dropWhile isspace (w @ r) = dropWhile isspace w @ r"
    using x by (rule dropWhile_append1)
  have 3: "dropWhile isspace (rev r @ rev (dropWhile isspace w))
             = dropWhile isspace (rev (dropWhile isspace w))"
    using r by (intro dropWhile_all_append) simp
  show ?thesis by (simp add: strip_def 1 2 3)
qed

lemma int_of_str_pad:
  assumes "\<forall>c\<in>set l. isspace c" and "\<forall>c\<in>set r. isspace c"
  shows "int_of_str (l @ w @ r) = int_of_str w"
  by (simp add: int_of_str_def strip_pad [OF assms])

subsection \<open>Splitting strings\<close>

lemma str_partition_absent: "c \<notin> set s \<Longrightarrow> str_partition c s = (s, [], [])"
  by (simp add: str_partition_def)

lemma str_partition_first: "c \<notin> set a \<Longrightarrow> str_partition c (a @ c # b) = (a, [c], b)"
  by (induction a) (auto simp: str_partition_def)

subsection \<open>What validation of a version number guarantees\<close>

lemma VersionNumber_new_valid:
  "VersionNumber_new a b c = Inr n \<Longrightarrow> VersionNumber_validate n = Inr ()"
  by (auto simp: VersionNumber_new_def Let_def split: sum.splits)

lemma VersionNumber_parse_valid:
  "VersionNumber_parse s = Inr n \<Longrightarrow> VersionNumber_validate n = Inr ()"
  by (auto simp: VersionNumber_parse_def VersionNumber_new_valid split: prod.splits if_splits)

lemma validate_major:
  "VersionNumber_validate n = Inr () \<Longrightarrow> \<exists>k\<ge>0. major n = PyInt k"
  by (cases "major n") (auto simp: VersionNumber_validate_def split: if_splits)

lemma validate_minor:
  "VersionNumber_validate n = Inr () \<Longrightarrow>
     (minor n = WILDCARD \<and> micro n = PyNone) \<or> (\<exists>k\<ge>0. minor n = PyInt k)"
  by (cases "minor n") (auto simp: VersionNumber_validate_def split: if_splits)

lemma validate_micro:
  "VersionNumber_validate n = Inr () \<Longrightarrow>
     micro n = PyNone \<or> micro n = WILDCARD \<or> (\<exists>k\<ge>0. micro n = PyInt k)"
  by (cases "micro n") (auto simp: VersionNumber_validate_def split: if_splits)

lemma validate_not_all_unset:
  "VersionNumber_validate n = Inr () \<Longrightarrow>
     truthy (major n) \<or> truthy (minor n) \<or> truthy (micro n)"
  by (auto simp: VersionNumber_validate_def split: if_splits)

text \<open>A string token that is no integer literal does not come back from \<open>_parse_number\<close>.\<close>

lemma parse_number_str_not_int:
  assumes "s \<noteq> []" "s \<notin> {''x'', ''X'', ''*''}" "int_of_str s = None"
  shows "parse_number (PyStr s) = Inl (ValueError InvalidLiteral)"
  using assms by (simp add: parse_number_def)

lemma parse_number_PyInt: "parse_number (PyInt k) = Inr (PyInt k)"
  by (simp add: parse_number_def)

lemma parse_number_WILDCARD: "parse_number WILDCARD = Inr WILDCARD"
  by (simp add: parse_number_def WILDCARD_def)

lemma parse_number_PyNone: "parse_number PyNone = Inr PyNone"
  by (simp add: parse_number_def)

lemma force_micro:
  assumes "VersionNumber_validate n = Inr ()" "micro n = PyNone" "minor n \<noteq> WILDCARD"
  shows "replace_micro n (PyInt 0) = Inr (n\<lparr>micro := PyInt 0\<rparr>)"
proof -
  obtain a where a: "major n = PyInt a" "0 \<le> a"
    using validate_major [OF assms(1)] by blast
  obtain b where b: "minor n = PyInt b" "0 \<le> b"
    using validate_minor [OF assms(1)] assms(3) by blast
  have "a \<noteq> 0 \<or> b \<noteq> 0"
    using validate_not_all_unset [OF assms(1)] a b assms(2) by auto
  then show ?thesis using a b
    by (auto simp: replace_micro_def VersionNumber_new_def parse_number_PyInt
        VersionNumber_validate_def WILDCARD_def Let_def)
qed

lemma force_micro_wildcard:
  assumes "VersionNumber_validate n = Inr ()" "minor n = WILDCARD"
  shows "replace_micro n (PyInt 0) = Inl (ValueError UnexpectedMicro)"
proof -
  obtain a where a: "major n = PyInt a" "0 \<le> a"
    using validate_major [OF assms(1)] by blast
  show ?thesis using a assms(2)
    by (auto simp: replace_micro_def VersionNumber_new_def parse_number_def
        VersionNumber_validate_def WILDCARD_def Let_def)
qed

subsection \<open>Fields of a valid version number as text\<close>

lemma str_int_nonneg: "0 \<le> k \<Longrightarrow> str_int k = str_nat (nat k)"
  by (simp add: str_int_def)

lemma str_nat_not_wildcard:
  "str_nat n \<noteq> ''x''" "str_nat n \<noteq> ''X''" "str_nat n \<noteq> ''*''"
  using str_nat_chars [of _ n] isdigit_not_special
  by (metis list.set_intros(1))+

lemma parse_number_str_nat: "parse_number (PyStr (str_nat n)) = Inr (PyInt (int n))"
  by (simp add: parse_number_def str_nat_nonempty str_nat_not_wildcard int_of_str_str_nat)

lemma field_ok_parse:
  assumes "field_ok f"
  shows "parse_number (PyStr (py_format f)) = Inr f"
proof (cases "f = WILDCARD")
  case True
  then show ?thesis by (simp add: WILDCARD_def parse_number_def)
next
  case False
  then obtain k where k: "0 \<le> k" "f = PyInt k"
    using assms by (auto simp: field_ok_def)
  then show ?thesis
    using parse_number_str_nat [of "nat k"] by (simp add: str_int_nonneg)
qed

lemma field_ok_no_dot:
  assumes "field_ok f"
  shows "CHR ''.'' \<notin> set (py_format f)"
proof (cases "f = WILDCARD")
  case True
  then show ?thesis by (simp add: WILDCARD_def)
next
  case False
  then obtain k where k: "0 \<le> k" "f = PyInt k"
    using assms by (auto simp: field_ok_def)
  have "CHR ''.'' \<notin> set (str_nat (nat k))"
    using str_nat_chars [of "CHR ''.''" "nat k"] isdigit_not_special [of "CHR ''.''"]
    by blast
  then show ?thesis using k by (simp add: str_int_nonneg)
qed

lemma field_ok_no_dash:
  assumes "field_ok f"
  shows "CHR ''-'' \<notin> set (py_format f)"
proof (cases "f = WILDCARD")
  case True
  then show ?thesis by (simp add: WILDCARD_def)
next
  case False
  then obtain k where k: "0 \<le> k" "f = PyInt k"
    using assms by (auto simp: field_ok_def)
  have "CHR ''-'' \<notin> set (str_nat (nat k))"
    using str_nat_chars [of "CHR ''-''" "nat k"] isdigit_not_special [of "CHR ''-''"]
    by blast
  then show ?thesis using k by (simp add: str_int_nonneg)
qed

lemma field_ok_nonempty:
  assumes "field_ok f"
  shows "py_format f \<noteq> []"
  using assms by (auto simp: field_ok_def WILDCARD_def str_int_nonneg str_nat_nonempty)

lemma VersionNumber_new_of_fields:
  assumes "parse_number a = Inr (major v)" "parse_number b = Inr (minor v)"
    "parse_number c = Inr (micro v)" "VersionNumber_validate v = Inr ()"
  shows "VersionNumber_new a b c = Inr v"
proof -
  have h: "\<lparr>major = major v, minor = minor v, micro = micro v\<rparr> = v" by simp
  show ?thesis by (simp add: VersionNumber_new_def Let_def assms h)
qed

lemma valid_fields:
  assumes "VersionNumber_validate v = Inr ()"
  shows "field_ok (major v)" "field_ok (minor v)" "micro v = PyNone \<or> field_ok (micro v)"
  using validate_major [OF assms] validate_minor [OF assms] validate_micro [OF assms]
  by (auto simp: field_ok_def)

lemma parse_str_valid:
  assumes v: "VersionNumber_validate v = Inr ()"
  shows "VersionNumber_parse (VersionNumber_str v) = Inr v"
proof -
  note f = valid_fields [OF v]
  have ma: "parse_number (PyStr (py_format (major v))) = Inr (major v)"
    using f(1) by (rule field_ok_parse)
  have mi: "parse_number (PyStr (py_format (minor v))) = Inr (minor v)"
    using f(2) by (rule field_ok_parse)
  have d1: "CHR ''.'' \<notin> set (py_format (major v))" using f(1) by (rule field_ok_no_dot)
  have d2: "CHR ''.'' \<notin> set (py_format (minor v))" using f(2) by (rule field_ok_no_dot)
  show ?thesis
  proof (cases "micro v = PyNone")
    case True
    have mc: "parse_number (PyStr []) = Inr (micro v)"
      using True by (simp add: parse_number_def)
    have "VersionNumber_parse (py_format (major v) @ CHR ''.'' # py_format (minor v))
            = VersionNumber_new (PyStr (py_format (major v))) (PyStr (py_format (minor v)))
                (PyStr [])"
      using d1 d2 by (simp add: VersionNumber_parse_def str_partition_first str_partition_absent)
    then show ?thesis
      using True VersionNumber_new_of_fields [OF ma mi mc v]
      by (simp add: VersionNumber_str_def)
  next
    case False
    then have ok: "field_ok (micro v)" using f(3) by simp
    have mc: "parse_number (PyStr (py_format (micro v))) = Inr (micro v)"
      using ok by (rule field_ok_parse)
    have ne: "py_format (micro v) \<noteq> []" using ok by (rule field_ok_nonempty)
    have "VersionNumber_parse
            (py_format (major v) @ CHR ''.'' # py_format (minor v) @ CHR ''.'' # py_format (micro v))
            = VersionNumber_new (PyStr (py_format (major v))) (PyStr (py_format (minor v)))
                (PyStr (py_format (micro v)))"
      using d1 d2 ne by (simp add: VersionNumber_parse_def str_partition_first)
    then show ?thesis
      using False VersionNumber_new_of_fields [OF ma mi mc v]
      by (simp add: VersionNumber_str_def)
  qed
qed


subsection \<open>Whitespace around the text of a version number\<close>

lemma int_of_str_special:
  "int_of_str [] = None" "int_of_str ''x'' = None" "int_of_str ''X'' = None"
  "int_of_str ''*'' = None"
  by code_simp+

lemma parse_number_str_cases:
  assumes "parse_number (PyStr s) = Inr x"
  shows "(s = [] \<and> x = PyNone) \<or> (s \<in> {''x'', ''X'', ''*''} \<and> x = WILDCARD)
         \<or> (\<exists>n. int_of_str s = Some n \<and> x = PyInt n)"
  using assms by (auto simp: parse_number_def split: if_splits option.splits)

lemma parse_number_int_iff:
  "parse_number (PyStr w) = Inr (PyInt n) \<longleftrightarrow> int_of_str w = Some n"
  by (auto simp: parse_number_def WILDCARD_def int_of_str_special split: option.splits)

lemma parse_number_pad:
  assumes "parse_number (PyStr w) = Inr (PyInt n)"
    and "\<forall>c\<in>set l. isspace c" and "\<forall>c\<in>set r. isspace c"
  shows "parse_number (PyStr (l @ w @ r)) = Inr (PyInt n)"
  using assms by (simp only: parse_number_int_iff int_of_str_pad)

lemma single_pad:
  assumes "l @ w @ r = [c]" "\<not> isspace c"
    and "\<forall>c\<in>set l. isspace c" and "\<forall>c\<in>set r. isspace c"
  shows "w = [c]"
proof -
  have "l = []" using assms by (cases l) auto
  moreover have "r = []" using assms by (cases r rule: rev_cases) auto
  ultimately show ?thesis using assms(1) by simp
qed

lemma parse_number_pad_back:
  assumes p: "parse_number (PyStr (l @ w @ r)) = Inr x"
    and l: "\<forall>c\<in>set l. isspace c" and r: "\<forall>c\<in>set r. isspace c"
  shows "parse_number (PyStr w) = Inr x"
proof -
  consider "l @ w @ r = []" "x = PyNone"
    | "l @ w @ r \<in> {''x'', ''X'', ''*''}" "x = WILDCARD"
    | n where "int_of_str (l @ w @ r) = Some n" "x = PyInt n"
    using parse_number_str_cases [OF p] by blast
  then show ?thesis
  proof cases
    case 1
    then show ?thesis by (simp add: parse_number_def)
  next
    case 2
    then obtain c where c: "l @ w @ r = [c]" "c \<in> {CHR ''x'', CHR ''X'', CHR ''*''}"
      by auto
    then have "\<not> isspace c" using not_space_special by auto
    then have "w = [c]" using single_pad c(1) l r by blast
    then show ?thesis using c 2 by (auto simp: parse_number_def)
  next
    case 3
    then have "int_of_str w = Some n" using int_of_str_pad [OF l r] by simp
    then show ?thesis using 3 by (simp add: parse_number_int_iff)
  qed
qed

lemma parse_number_spaces:
  assumes "r \<noteq> []" "\<forall>c\<in>set r. isspace c"
  shows "\<exists>e. parse_number (PyStr r) = Inl e"
proof (cases "parse_number (PyStr r)")
  case (Inl e)
  then show ?thesis by blast
next
  case (Inr x)
  then have "parse_number (PyStr ([] @ [] @ r)) = Inr x" by simp
  then have "parse_number (PyStr []) = Inr x"
    using assms(2) parse_number_pad_back [of "[]" "[]" r x] by simp
  then have x: "x = PyNone" by (simp add: parse_number_def)
  have "hd r \<in> set r" using assms(1) by simp
  then have "isspace (hd r)" using assms(2) by blast
  then have "r \<notin> {''x'', ''X'', ''*''}" using not_space_special by auto
  then have False using Inr x assms(1)
    by (auto simp: parse_number_def WILDCARD_def split: if_splits sum.splits error.splits)
  then show ?thesis ..
qed

lemma VersionNumber_new_fields:
  assumes "VersionNumber_new a b c = Inr v"
  shows "parse_number a = Inr (major v)" "parse_number b = Inr (minor v)"
    "parse_number c = Inr (micro v)" "VersionNumber_validate v = Inr ()"
  using assms by (auto simp: VersionNumber_new_def Let_def split: sum.splits)

lemma no_minor_fails: "VersionNumber_new a (PyStr []) c \<noteq> Inr v"
proof
  assume h: "VersionNumber_new a (PyStr []) c = Inr v"
  have "minor v = PyNone" using VersionNumber_new_fields(2) [OF h] by (simp add: parse_number_def)
  then show False using validate_minor [OF VersionNumber_new_fields(4) [OF h]]
    by (auto simp: WILDCARD_def)
qed

lemma parse_no_dot: "CHR ''.'' \<notin> set s \<Longrightarrow> VersionNumber_parse s \<noteq> Inr v"
  by (simp add: VersionNumber_parse_def str_partition_absent no_minor_fails)

lemma parse_one_dot:
  "CHR ''.'' \<notin> set ma \<Longrightarrow> CHR ''.'' \<notin> set mi \<Longrightarrow>
   VersionNumber_parse (ma @ CHR ''.'' # mi) = VersionNumber_new (PyStr ma) (PyStr mi) (PyStr [])"
  by (simp add: VersionNumber_parse_def str_partition_first str_partition_absent)

lemma parse_two_dots:
  "CHR ''.'' \<notin> set ma \<Longrightarrow> CHR ''.'' \<notin> set mi \<Longrightarrow>
   VersionNumber_parse (ma @ CHR ''.'' # mi @ CHR ''.'' # mc) =
     (if mc = [] then Inl (ValueError MissingMicro)
      else VersionNumber_new (PyStr ma) (PyStr mi) (PyStr mc))"
  by (simp add: VersionNumber_parse_def str_partition_first)

lemma dot_not_space: "\<forall>c\<in>set l. isspace c \<Longrightarrow> CHR ''.'' \<notin> set l"
  using not_space_special(3) by blast

lemma new_pad_back:
  assumes n: "VersionNumber_new (PyStr (l @ a)) (PyStr (b @ r1)) (PyStr (c @ r2)) = Inr v"
    and l: "\<forall>c\<in>set l. isspace c" and r1: "\<forall>c\<in>set r1. isspace c"
    and r2: "\<forall>c\<in>set r2. isspace c"
  shows "VersionNumber_new (PyStr a) (PyStr b) (PyStr c) = Inr v"
proof -
  note f = VersionNumber_new_fields [OF n]
  have "parse_number (PyStr (l @ a @ [])) = Inr (major v)" using f(1) by simp
  then have ma: "parse_number (PyStr a) = Inr (major v)"
    using l by (intro parse_number_pad_back [of l a "[]"]) simp_all
  have "parse_number (PyStr ([] @ b @ r1)) = Inr (minor v)" using f(2) by simp
  then have mi: "parse_number (PyStr b) = Inr (minor v)"
    using r1 by (intro parse_number_pad_back [of "[]" b r1]) simp_all
  have "parse_number (PyStr ([] @ c @ r2)) = Inr (micro v)" using f(3) by simp
  then have mc: "parse_number (PyStr c) = Inr (micro v)"
    using r2 by (intro parse_number_pad_back [of "[]" c r2]) simp_all
  show ?thesis using ma mi mc f(4) by (rule VersionNumber_new_of_fields)
qed

lemma parse_pad_back:
  assumes p: "VersionNumber_parse (l @ t @ r) = Inr v"
    and l: "\<forall>c\<in>set l. isspace c" and r: "\<forall>c\<in>set r. isspace c"
  shows "VersionNumber_parse t = Inr v"
proof (cases "CHR ''.'' \<in> set t")
  case False
  then have "CHR ''.'' \<notin> set (l @ t @ r)" using dot_not_space l r by simp
  then show ?thesis using p parse_no_dot by blast
next
  case True
  then obtain ma t1 where t: "t = ma @ CHR ''.'' # t1" "CHR ''.'' \<notin> set ma"
    by (meson split_list_first)
  have dl: "CHR ''.'' \<notin> set (l @ ma)" using t(2) dot_not_space [OF l] by simp
  show ?thesis
  proof (cases "CHR ''.'' \<in> set t1")
    case False
    then have d1: "CHR ''.'' \<notin> set (t1 @ r)" using dot_not_space [OF r] by simp
    have "VersionNumber_parse ((l @ ma) @ CHR ''.'' # (t1 @ r))
            = VersionNumber_new (PyStr (l @ ma)) (PyStr (t1 @ r)) (PyStr [])"
      using dl d1 by (rule parse_one_dot)
    then have "VersionNumber_new (PyStr (l @ ma)) (PyStr (t1 @ r)) (PyStr ([] @ [])) = Inr v"
      using p t(1) by simp
    then have "VersionNumber_new (PyStr ma) (PyStr t1) (PyStr []) = Inr v"
      using l r by (intro new_pad_back [of l ma t1 r "[]" "[]"]) simp_all
    then show ?thesis using t False by (simp add: parse_one_dot)
  next
    case True
    then obtain mi mc where t1: "t1 = mi @ CHR ''.'' # mc" "CHR ''.'' \<notin> set mi"
      by (meson split_list_first)
    have s: "VersionNumber_parse ((l @ ma) @ CHR ''.'' # mi @ CHR ''.'' # (mc @ r)) =
        (if mc @ r = [] then Inl (ValueError MissingMicro)
         else VersionNumber_new (PyStr (l @ ma)) (PyStr mi) (PyStr (mc @ r)))"
      using dl t1(2) by (rule parse_two_dots)
    have p': "VersionNumber_parse ((l @ ma) @ CHR ''.'' # mi @ CHR ''.'' # (mc @ r)) = Inr v"
      using p t(1) t1(1) by simp
    have ne: "mc @ r \<noteq> []"
    proof
      assume e: "mc @ r = []"
      have "VersionNumber_parse ((l @ ma) @ CHR ''.'' # mi @ CHR ''.'' # (mc @ r))
              = Inl (ValueError MissingMicro)"
        unfolding s using e by simp
      then show False using p' by simp
    qed
    have "VersionNumber_parse ((l @ ma) @ CHR ''.'' # mi @ CHR ''.'' # (mc @ r))
            = VersionNumber_new (PyStr (l @ ma)) (PyStr mi) (PyStr (mc @ r))"
      unfolding s using ne by auto
    then have n: "VersionNumber_new (PyStr (l @ ma)) (PyStr (mi @ [])) (PyStr (mc @ r)) = Inr v"
      using p' by simp
    have "mc \<noteq> []"
    proof
      assume e: "mc = []"
      then have "r \<noteq> []" using ne by simp
      then obtain e' where "parse_number (PyStr r) = Inl e'"
        using parse_number_spaces r by blast
      then show False using VersionNumber_new_fields(3) [OF n] e by simp
    qed
    moreover have "VersionNumber_new (PyStr ma) (PyStr mi) (PyStr mc) = Inr v"
      using n l r by (intro new_pad_back [of l ma mi "[]" mc r]) simp_all
    ultimately show ?thesis using t t1 by (simp add: parse_two_dots)
  qed
qed

lemma new_pad:
  assumes n: "VersionNumber_new (PyStr a) (PyStr b) (PyStr c) = Inr v"
    and l: "\<forall>c\<in>set l. isspace c"
    and r1: "\<forall>c\<in>set r1. isspace c" "r1 = [] \<or> (\<exists>k. minor v = PyInt k)"
    and r2: "\<forall>c\<in>set r2. isspace c" "r2 = [] \<or> (\<exists>k. micro v = PyInt k)"
  shows "VersionNumber_new (PyStr (l @ a)) (PyStr (b @ r1)) (PyStr (c @ r2)) = Inr v"
proof -
  note f = VersionNumber_new_fields [OF n]
  obtain k where "major v = PyInt k" using validate_major [OF f(4)] by blast
  then have "parse_number (PyStr (l @ a @ [])) = Inr (major v)"
    using f(1) l parse_number_pad [of a k l "[]"] by simp
  then have ma: "parse_number (PyStr (l @ a)) = Inr (major v)" by simp
  have mi: "parse_number (PyStr (b @ r1)) = Inr (minor v)"
  proof (cases "r1 = []")
    case True
    then show ?thesis using f(2) by simp
  next
    case False
    then obtain k where "minor v = PyInt k" using r1(2) by blast
    then have "parse_number (PyStr ([] @ b @ r1)) = Inr (minor v)"
      using f(2) r1(1) parse_number_pad [of b k "[]" r1] by simp
    then show ?thesis by simp
  qed
  have mc: "parse_number (PyStr (c @ r2)) = Inr (micro v)"
  proof (cases "r2 = []")
    case True
    then show ?thesis using f(3) by simp
  next
    case False
    then obtain k where "micro v = PyInt k" using r2(2) by blast
    then have "parse_number (PyStr ([] @ c @ r2)) = Inr (micro v)"
      using f(3) r2(1) parse_number_pad [of c k "[]" r2] by simp
    then show ?thesis by simp
  qed
  show ?thesis using ma mi mc f(4) by (rule VersionNumber_new_of_fields)
qed

lemma parse_pad:
  assumes p: "VersionNumber_parse t = Inr v"
    and l: "\<forall>c\<in>set l. isspace c" and r: "\<forall>c\<in>set r. isspace c"
    and w: "(minor v \<noteq> WILDCARD \<and> micro v \<noteq> WILDCARD) \<or> r = []"
  shows "VersionNumber_parse (l @ t @ r) = Inr v"
proof (cases "CHR ''.'' \<in> set t")
  case False
  then show ?thesis using p parse_no_dot by blast
next
  case True
  then obtain ma t1 where t: "t = ma @ CHR ''.'' # t1" "CHR ''.'' \<notin> set ma"
    by (meson split_list_first)
  have dl: "CHR ''.'' \<notin> set (l @ ma)" using t(2) dot_not_space [OF l] by simp
  show ?thesis
  proof (cases "CHR ''.'' \<in> set t1")
    case False
    then have d1: "CHR ''.'' \<notin> set (t1 @ r)" using dot_not_space [OF r] by simp
    have n: "VersionNumber_new (PyStr ma) (PyStr t1) (PyStr []) = Inr v"
      using p t False by (simp add: parse_one_dot)
    have "r = [] \<or> (\<exists>k. minor v = PyInt k)"
      using w validate_minor [OF VersionNumber_new_fields(4) [OF n]] by blast
    then have "VersionNumber_new (PyStr (l @ ma)) (PyStr (t1 @ r)) (PyStr ([] @ [])) = Inr v"
      using n l r by (intro new_pad) simp_all
    moreover have "VersionNumber_parse ((l @ ma) @ CHR ''.'' # (t1 @ r))
            = VersionNumber_new (PyStr (l @ ma)) (PyStr (t1 @ r)) (PyStr [])"
      using dl d1 by (rule parse_one_dot)
    ultimately show ?thesis using t(1) by simp
  next
    case True
    then obtain mi mc where t1: "t1 = mi @ CHR ''.'' # mc" "CHR ''.'' \<notin> set mi"
      by (meson split_list_first)
    have pt: "VersionNumber_parse (ma @ CHR ''.'' # mi @ CHR ''.'' # mc) =
        (if mc = [] then Inl (ValueError MissingMicro)
         else VersionNumber_new (PyStr ma) (PyStr mi) (PyStr mc))"
      using t(2) t1(2) by (rule parse_two_dots)
    have mc: "mc \<noteq> []" using p pt t(1) t1(1) by (auto split: if_splits)
    have n: "VersionNumber_new (PyStr ma) (PyStr mi) (PyStr mc) = Inr v"
      using p pt t(1) t1(1) mc by simp
    have "micro v \<noteq> PyNone"
      using parse_number_str_cases [OF VersionNumber_new_fields(3) [OF n]] mc
      by (auto simp: WILDCARD_def)
    then have "r = [] \<or> (\<exists>k. micro v = PyInt k)"
      using w validate_micro [OF VersionNumber_new_fields(4) [OF n]] by blast
    then have "VersionNumber_new (PyStr (l @ ma)) (PyStr (mi @ [])) (PyStr (mc @ r)) = Inr v"
      using n l r by (intro new_pad) simp_all
    moreover have "VersionNumber_parse ((l @ ma) @ CHR ''.'' # mi @ CHR ''.'' # (mc @ r)) =
        (if mc @ r = [] then Inl (ValueError MissingMicro)
         else VersionNumber_new (PyStr (l @ ma)) (PyStr mi) (PyStr (mc @ r)))"
      using dl t1(2) by (rule parse_two_dots)
    ultimately show ?thesis using t(1) t1(1) mc by simp
  qed
qed

lemma no_trailing_space:
  assumes "s = l @ t @ r" "\<forall>c\<in>set r. isspace c" "s = [] \<or> \<not> isspace (last s)"
  shows "r = []"
proof (rule ccontr)
  assume "r \<noteq> []"
  then have "last s = last r" "last r \<in> set r" "s \<noteq> []" using assms(1) by simp_all
  then show False using assms(2,3) by auto
qed

lemma parse_strip:
  "(VersionNumber_parse s = Inr v \<longrightarrow> VersionNumber_parse (strip s) = Inr v)
   \<and> (VersionNumber_parse (strip s) = Inr v
        \<and> ((minor v \<noteq> WILDCARD \<and> micro v \<noteq> WILDCARD) \<or> s = [] \<or> \<not> isspace (last s))
      \<longrightarrow> VersionNumber_parse s = Inr v)"
proof -
  obtain l r where d: "s = l @ strip s @ r" "\<forall>c\<in>set l. isspace c" "\<forall>c\<in>set r. isspace c"
    using strip_decomp by blast
  have 1: "VersionNumber_parse s = Inr v \<longrightarrow> VersionNumber_parse (strip s) = Inr v"
    using parse_pad_back [of l "strip s" r v] d by metis
  have 2: "VersionNumber_parse (strip s) = Inr v
        \<and> ((minor v \<noteq> WILDCARD \<and> micro v \<noteq> WILDCARD) \<or> s = [] \<or> \<not> isspace (last s))
      \<longrightarrow> VersionNumber_parse s = Inr v"
  proof
    assume a: "VersionNumber_parse (strip s) = Inr v
        \<and> ((minor v \<noteq> WILDCARD \<and> micro v \<noteq> WILDCARD) \<or> s = [] \<or> \<not> isspace (last s))"
    then have "(minor v \<noteq> WILDCARD \<and> micro v \<noteq> WILDCARD) \<or> r = []"
      using no_trailing_space [OF d(1) d(3)] by blast
    then have "VersionNumber_parse (l @ strip s @ r) = Inr v"
      using a d(2,3) by (intro parse_pad) simp_all
    then show "VersionNumber_parse s = Inr v" using d(1) by simp
  qed
  show ?thesis using 1 2 by blast
qed

subsection \<open>Matching a pattern\<close>

text \<open>
  Where \<open>match\<close> returns on two valid version numbers, its result is the comparison of the
  major fields and of the pattern's minor and micro fields that are set and no wildcard.
\<close>

lemma parse_number_valid_field:
  assumes "VersionNumber_validate v = Inr ()"
  shows "parse_number (major v) = Inr (major v)" "parse_number (minor v) = Inr (minor v)"
    "parse_number (micro v) = Inr (micro v)"
  using validate_major [OF assms] validate_minor [OF assms] validate_micro [OF assms]
    parse_number_PyInt parse_number_WILDCARD parse_number_PyNone
  by auto

lemma VersionNumber_new_same:
  assumes "VersionNumber_new x y z = Inr r"
    and "parse_number x = Inr x" "parse_number y = Inr y" "parse_number z = Inr z"
  shows "r = \<lparr>major = x, minor = y, micro = z\<rparr>"
  using VersionNumber_new_fields(1-3) [OF assms(1)] assms(2-4) by simp

lemma match_result:
  assumes p: "VersionNumber_validate p = Inr ()" and c: "VersionNumber_validate c = Inr ()"
    and m: "match p c = Inr b"
  shows "b = (major p = major c
              \<and> (minor p = WILDCARD \<or> minor p = minor c)
              \<and> (micro p = PyNone \<or> micro p = WILDCARD \<or> micro p = micro c))"
proof -
  note fp = parse_number_valid_field [OF p]
  note fc = parse_number_valid_field [OF c]
  obtain e where e: "apply_pattern p c = Inr e" "b = (c = e)"
    using m by (auto simp: match_def split: sum.splits)
  have ceq: "c = \<lparr>major = major c, minor = minor c, micro = micro c\<rparr>" by simp
  show ?thesis
  proof (cases "minor p = WILDCARD")
    case True
    then have mp: "micro p = PyNone" using validate_minor [OF p] validate_micro [OF p] p
      by (auto simp: VersionNumber_validate_def split: if_splits)
    obtain a1 where a1: "VersionNumber_new (major p) (minor c) (micro p) = Inr a1"
      using e(1) True
      by (cases "VersionNumber_new (major p) (minor c) (micro p)")
        (auto simp: apply_pattern_def replace_minor_def)
    have r1: "a1 = \<lparr>major = major p, minor = minor c, micro = micro p\<rparr>"
      using a1 fp(1) fc(2) fp(3) by (rule VersionNumber_new_same)
    then have "micro a1 = PyNone" using mp by simp
    then have a2: "VersionNumber_new (major a1) (minor a1) (micro c) = Inr e"
      using e(1) True a1 by (simp add: apply_pattern_def replace_minor_def replace_micro_def)
    have "e = \<lparr>major = major p, minor = minor c, micro = micro c\<rparr>"
      using VersionNumber_new_same [OF a2] r1 fp(1) fc(2) fc(3) by simp
    then show ?thesis using e(2) True mp ceq by (metis VersionNumber.ext_inject)
  next
    case False
    show ?thesis
    proof (cases "micro p = PyNone \<or> micro p = WILDCARD")
      case True
      have "VersionNumber_new (major p) (minor p) (micro c) = Inr e"
        using e(1) False True by (auto simp: apply_pattern_def replace_micro_def)
      then have "e = \<lparr>major = major p, minor = minor p, micro = micro c\<rparr>"
        using fp(1) fp(2) fc(3) by (rule VersionNumber_new_same)
      then show ?thesis using e(2) False True ceq by (metis VersionNumber.ext_inject)
    next
      case F2: False
      have "e = p" using e(1) False F2 by (auto simp: apply_pattern_def)
      then show ?thesis using e(2) False F2 by auto
    qed
  qed
qed

subsection \<open>What construction of a version guarantees\<close>

lemma Version_new_fields:
  assumes "Version_new num level ser ar = Inr v"
  shows "present (series v) = present (arch v)"
    and "series v \<noteq> Some []" and "arch v \<noteq> Some []"
  using assms
  by (cases ser; cases ar;
      auto simp: Version_new_def Version_validate_def Let_def lower_def
        split: sum.splits option.splits if_splits)+

lemma Version_new_both:
  assumes "Version_new num level ser ar = Inr v"
  shows "(series v = None) = (arch v = None)"
  using Version_new_fields [OF assms] by (cases "series v"; cases "arch v") auto

lemma Version_parse_calls_new:
  assumes "Version_parse raw = Inr v"
  shows "\<exists>num level ser ar. Version_new num level ser ar = Inr v"
  using assms
  by (auto simp: Version_parse_def split: prod.splits sum.splits if_splits)

lemma Version_new_series_without_arch:
  "present ser \<Longrightarrow> \<not> present ar \<Longrightarrow> \<exists>e. Version_new num level ser ar = Inl e"
  by (cases ser; cases ar;
      auto simp: Version_new_def Version_validate_def Let_def lower_def
        is_valid_series_def is_valid_arch_def
        split: sum.splits option.splits if_splits)

lemma Version_new_arch_without_series:
  "present ar \<Longrightarrow> \<not> present ser \<Longrightarrow> \<exists>e. Version_new num level ser ar = Inl e"
  by (cases ser; cases ar;
      auto simp: Version_new_def Version_validate_def Let_def lower_def
        is_valid_series_def is_valid_arch_def
        split: sum.splits option.splits if_splits)

subsection \<open>Reading the text after the number\<close>

lemma final_not_dev: "\<not> is_dev_releaselevel RELEASE_FINAL"
  by code_simp

lemma parse_tail_two_tokens:
  "CHR ''-'' \<notin> set t1 \<Longrightarrow> CHR ''-'' \<notin> set t2 \<Longrightarrow>
   parse_tail (t1 @ CHR ''-'' # t2) = (RELEASE_FINAL, Some t1, Some t2)"
  by (simp add: parse_tail_def str_partition_first str_partition_absent)

lemma Version_parse_number_series_arch:
  assumes "CHR ''-'' \<notin> set numstr" "CHR ''-'' \<notin> set t1" "CHR ''-'' \<notin> set t2"
  shows "Version_parse (numstr @ ''-'' @ t1 @ ''-'' @ t2) =
     (case VersionNumber_parse numstr of
        Inl e \<Rightarrow> Inl e
      | Inr num \<Rightarrow> Version_new (Number num) (Some RELEASE_FINAL) (Some t1) (Some t2))"
  using assms
  by (simp add: Version_parse_def str_partition_first parse_tail_two_tokens final_not_dev
      split: sum.splits)

lemma Version_parse_dev_unset_micro:
  assumes "VersionNumber_parse numstr = Inr n" "micro n = PyNone"
    and "CHR ''-'' \<notin> set numstr"
    and "parse_tail rest = (level, ser, ar)" "is_dev_releaselevel level"
  shows "Version_parse (numstr @ ''-'' @ rest) =
           (if minor n = WILDCARD then Inl (ValueError UnexpectedMicro)
            else Version_new (Number (n\<lparr>micro := PyInt 0\<rparr>)) (Some level) ser ar)"
  using assms force_micro [OF VersionNumber_parse_valid [OF assms(1)] assms(2)]
    force_micro_wildcard [OF VersionNumber_parse_valid [OF assms(1)]]
  by (simp add: Version_parse_def str_partition_first)

subsection \<open>Writing a version and reading it back\<close>

lemma dash_not_space: "\<forall>c\<in>set l. isspace c \<Longrightarrow> CHR ''-'' \<notin> set l"
  using not_space_special(1) by blast

lemma dash_not_digit: "list_all isdigit ds \<Longrightarrow> CHR ''-'' \<notin> set ds"
  using isdigit_not_special [of "CHR ''-''"] by (auto simp: list_all_iff)

lemma int_of_str_positive_no_dash:
  assumes "int_of_str s = Some k" "1 \<le> k"
  shows "CHR ''-'' \<notin> set s"
proof -
  obtain l r where d: "s = l @ strip s @ r" "\<forall>c\<in>set l. isspace c" "\<forall>c\<in>set r. isspace c"
    using strip_decomp by blast
  define t where "t = strip s"
  define u where "u = (if t \<noteq> [] \<and> (hd t = CHR ''-'' \<or> hd t = CHR ''+'') then tl t else t)"
  define ds where "ds = dropWhile isspace u"
  have i: "int_of_str s =
      (if ds \<noteq> [] \<and> list_all isdigit ds
       then Some (if t \<noteq> [] \<and> hd t = CHR ''-'' then - int (digits_value ds)
                  else int (digits_value ds))
       else None)"
    by (simp add: int_of_str_def Let_def t_def u_def ds_def)
  have dig: "list_all isdigit ds" using assms(1) i by (auto split: if_splits)
  have pos: "\<not> (t \<noteq> [] \<and> hd t = CHR ''-'')"
    using assms i by (auto split: if_splits)
  have "u = takeWhile isspace u @ ds" by (simp add: ds_def)
  moreover have "CHR ''-'' \<notin> set (takeWhile isspace u)"
    by (rule dash_not_space) (metis set_takeWhileD)
  ultimately have nu: "CHR ''-'' \<notin> set u"
    using dash_not_digit [OF dig] by (metis Un_iff set_append)
  have "CHR ''-'' \<notin> set t"
  proof (cases t)
    case Nil
    then show ?thesis by simp
  next
    case (Cons c cs)
    then show ?thesis using pos nu by (auto simp: u_def split: if_splits)
  qed
  then show ?thesis
    using d dash_not_space t_def by (metis Un_iff set_append)
qed

lemma releaselevel_matches_no_dash:
  assumes "releaselevel_matches level kinds" "\<forall>k\<in>set kinds. CHR ''-'' \<notin> set k"
  shows "CHR ''-'' \<notin> set level"
  using assms
proof (induction kinds)
  case Nil
  then show ?case by simp
next
  case (Cons kind kinds)
  show ?case
  proof (cases "startswith level kind")
    case True
    then obtain num where n: "int_of_str (drop (length kind) level) = Some num" "1 \<le> num"
      using Cons.prems(1) by (auto split: option.splits if_splits)
    have "level = take (length kind) level @ drop (length kind) level" by simp
    moreover have "take (length kind) level = kind" using True by (simp add: startswith_def)
    ultimately have "set level = set kind \<union> set (drop (length kind) level)"
      by (metis set_append)
    then show ?thesis
      using int_of_str_positive_no_dash [OF n] Cons.prems(2) by simp
  next
    case False
    then show ?thesis using Cons by simp
  qed
qed

lemma dev_no_dash: "is_dev_releaselevel level \<Longrightarrow> CHR ''-'' \<notin> set level"
  by (rule releaselevel_matches_no_dash [of level "[RELEASE_ALPHA, RELEASE_BETA, RELEASE_CANDIDATE]"])
    (simp_all add: is_dev_releaselevel_def RELEASE_ALPHA_def RELEASE_BETA_def
      RELEASE_CANDIDATE_def)

lemma takeWhile_all_append:
  "\<forall>c\<in>set xs. P c \<Longrightarrow> takeWhile P (xs @ ys) = xs @ takeWhile P ys"
  by (induction xs) auto

lemma str_rpartition_last:
  assumes "c \<notin> set y"
  shows "str_rpartition c (x @ c # y) = (x, [c], y)"
proof -
  have r: "rev (x @ c # y) = rev y @ c # rev x" by simp
  have a: "\<forall>d\<in>set (rev y). d \<noteq> c" using assms by auto
  have 1: "dropWhile (\<lambda>d. d \<noteq> c) (rev y @ c # rev x) = c # rev x"
    using dropWhile_all_append [OF a, of "c # rev x"] by simp
  have 2: "takeWhile (\<lambda>d. d \<noteq> c) (rev y @ c # rev x) = rev y"
    using takeWhile_all_append [OF a, of "c # rev x"] by simp
  show ?thesis unfolding str_rpartition_def r 1 2 by simp
qed

lemma parse_tail_one: "CHR ''-'' \<notin> set level \<Longrightarrow> parse_tail level = (level, None, None)"
  by (simp add: parse_tail_def str_partition_absent)

lemma parse_tail_three:
  "CHR ''-'' \<notin> set level \<Longrightarrow> CHR ''-'' \<notin> set ser \<Longrightarrow>
   parse_tail (level @ CHR ''-'' # ser @ CHR ''-'' # ar) = (level, Some ser, Some ar)"
  by (simp add: parse_tail_def str_partition_first)

lemma Version_parse_no_tail:
  "CHR ''-'' \<notin> set numstr \<Longrightarrow> VersionNumber_parse numstr = Inr n \<Longrightarrow>
   Version_parse numstr = Version_new (Number n) None None None"
  by (simp add: Version_parse_def str_partition_absent)

lemma Version_parse_with_tail:
  "CHR ''-'' \<notin> set numstr \<Longrightarrow> VersionNumber_parse numstr = Inr n \<Longrightarrow>
   parse_tail rest = (level, ser, ar) \<Longrightarrow> micro n \<noteq> PyNone \<Longrightarrow>
   Version_parse (numstr @ CHR ''-'' # rest) = Version_new (Number n) (Some level) ser ar"
  by (simp add: Version_parse_def str_partition_first)

lemma lower_idem: "lower (lower s) = lower s"
  by (simp add: lower_def lower_char_idem)

lemma lower_nil: "(lower s = []) = (s = [])"
  by (simp add: lower_def)

lemma lower_final: "lower RELEASE_FINAL = RELEASE_FINAL"
  by code_simp

lemma Version_new_Number_validated:
  assumes "Version_new (Number n) level ser ar = Inr v"
  shows "Version_validate (Some n) (releaselevel v) (series v) (arch v) = Inr ()"
    and "number v = n"
    and "lower (releaselevel v) = releaselevel v"
    and "\<And>s. series v = Some s \<Longrightarrow> lower s = s \<and> s \<noteq> []"
    and "\<And>s. arch v = Some s \<Longrightarrow> lower s = s \<and> s \<noteq> []"
  using assms
  by (cases level; cases ser; cases ar;
      auto simp: Version_new_def Let_def lower_idem lower_final lower_nil
        split: sum.splits if_splits)+

lemma Version_validate_facts:
  assumes "Version_validate (Some n) l s a = Inr ()"
  shows "\<not> iswildcard n" "l \<noteq> []" "is_valid_releaselevel l" "present s = present a"
  using assms by (auto simp: Version_validate_def split: if_splits)

lemma Version_new_again:
  assumes "Version_new (Number n) level ser ar = Inr v"
  shows "Version_new (Number n) (Some (releaselevel v)) (series v) (arch v) = Inr v"
proof -
  note f = Version_new_Number_validated [OF assms]
  note g = Version_validate_facts [OF f(1)]
  have l: "(if present (Some (releaselevel v)) then lower (the (Some (releaselevel v)))
            else RELEASE_FINAL) = releaselevel v"
    using g(2) f(3) by simp
  have s: "(if present (series v) then Some (lower (the (series v))) else None) = series v"
    using f(4) by (cases "series v") auto
  have a: "(if present (arch v) then Some (lower (the (arch v))) else None) = arch v"
    using f(5) by (cases "arch v") auto
  have v: "\<lparr>number = n, releaselevel = releaselevel v, series = series v, arch = arch v\<rparr> = v"
    using f(2) by simp
  show ?thesis
    unfolding Version_new_def Let_def l s a
    by (simp add: f(1) v)
qed

lemma Version_new_final_default:
  assumes "Version_new (Number n) level ser ar = Inr v" "releaselevel v = RELEASE_FINAL"
  shows "Version_new (Number n) None (series v) (arch v) = Inr v"
proof -
  note f = Version_new_Number_validated [OF assms(1)]
  have l: "(if present None then lower (the None) else RELEASE_FINAL) = releaselevel v"
    using assms(2) by simp
  have s: "(if present (series v) then Some (lower (the (series v))) else None) = series v"
    using f(4) by (cases "series v") auto
  have a: "(if present (arch v) then Some (lower (the (arch v))) else None) = arch v"
    using f(5) by (cases "arch v") auto
  have v: "\<lparr>number = n, releaselevel = releaselevel v, series = series v, arch = arch v\<rparr> = v"
    using f(2) by simp
  show ?thesis
    unfolding Version_new_def Let_def l s a
    by (simp add: f(1) v)
qed

lemma VersionNumber_str_no_dash:
  assumes "VersionNumber_validate n = Inr ()"
  shows "CHR ''-'' \<notin> set (VersionNumber_str n)"
  using valid_fields [OF assms] field_ok_no_dash
  by (auto simp: VersionNumber_str_def)

lemma drop_micro_valid:
  assumes "VersionNumber_validate n = Inr ()" "micro n = PyInt 0" "minor n \<noteq> WILDCARD"
  shows "VersionNumber_validate (n\<lparr>micro := PyNone\<rparr>) = Inr ()"
proof -
  obtain a where a: "major n = PyInt a" "0 \<le> a"
    using validate_major [OF assms(1)] by blast
  obtain b where b: "minor n = PyInt b" "0 \<le> b"
    using validate_minor [OF assms(1)] assms(3) by blast
  have "a \<noteq> 0 \<or> b \<noteq> 0"
    using validate_not_all_unset [OF assms(1)] a b assms(2) by auto
  then show ?thesis using a b
    by (auto simp: VersionNumber_validate_def WILDCARD_def)
qed

lemma drop_micro_str:
  assumes "VersionNumber_validate n = Inr ()" "micro n = PyInt 0"
  shows "fst (str_rpartition CHR ''.'' (VersionNumber_str n))
           = VersionNumber_str (n\<lparr>micro := PyNone\<rparr>)"
proof -
  have "field_ok (PyInt 0)" by (simp add: field_ok_def)
  then have "CHR ''.'' \<notin> set (py_format (PyInt 0))" by (rule field_ok_no_dot)
  then have "str_rpartition CHR ''.''
               ((py_format (major n) @ CHR ''.'' # py_format (minor n)) @ CHR ''.'' # py_format (PyInt 0))
             = (py_format (major n) @ CHR ''.'' # py_format (minor n), [CHR ''.''], py_format (PyInt 0))"
    by (rule str_rpartition_last)
  then show ?thesis using assms(2) by (simp add: VersionNumber_str_def)
qed

lemma dev_str_then_parse:
  assumes vn: "VersionNumber_validate n = Inr ()"
    and mic: "micro n \<noteq> PyNone" "minor n \<noteq> WILDCARD"
    and dev: "is_dev_releaselevel L"
    and tail: "parse_tail rest = (L, S, A)"
    and new: "Version_new (Number n) (Some L) S A = Inr v"
  shows "Version_parse
           ((if micro n = PyInt 0 then fst (str_rpartition CHR ''.'' (VersionNumber_str n))
             else VersionNumber_str n) @ CHR ''-'' # rest) = Inr v"
proof (cases "micro n = PyInt 0")
  case True
  let ?n0 = "n\<lparr>micro := PyNone\<rparr>"
  have v0: "VersionNumber_validate ?n0 = Inr ()"
    using vn True mic(2) by (rule drop_micro_valid)
  have pn0: "VersionNumber_parse (VersionNumber_str ?n0) = Inr ?n0"
    using v0 by (rule parse_str_valid)
  have nd0: "CHR ''-'' \<notin> set (VersionNumber_str ?n0)"
    using v0 by (rule VersionNumber_str_no_dash)
  have m0: "micro ?n0 = PyNone" by simp
  have restore: "?n0\<lparr>micro := PyInt 0\<rparr> = n" using True by simp
  have "Version_parse (VersionNumber_str ?n0 @ ''-'' @ rest) =
          (if minor ?n0 = WILDCARD then Inl (ValueError UnexpectedMicro)
           else Version_new (Number (?n0\<lparr>micro := PyInt 0\<rparr>)) (Some L) S A)"
    using pn0 m0 nd0 tail dev by (rule Version_parse_dev_unset_micro)
  then have "Version_parse (VersionNumber_str ?n0 @ CHR ''-'' # rest) = Inr v"
    using mic(2) new by (simp add: restore)
  then show ?thesis using True drop_micro_str [OF vn True] by simp
next
  case False
  have pn: "VersionNumber_parse (VersionNumber_str n) = Inr n"
    using vn by (rule parse_str_valid)
  have nd: "CHR ''-'' \<notin> set (VersionNumber_str n)"
    using vn by (rule VersionNumber_str_no_dash)
  have "Version_parse (VersionNumber_str n @ CHR ''-'' # rest)
          = Version_new (Number n) (Some L) S A"
    using nd pn tail mic(1) by (rule Version_parse_with_tail)
  then show ?thesis using False new by simp
qed

lemma str_then_parse:
  assumes vn: "VersionNumber_validate n = Inr ()"
    and v: "Version_new (Number n) level ser ar = Inr v"
    and ds: "\<And>s. series v = Some s \<Longrightarrow> CHR ''-'' \<notin> set s"
    and da: "\<And>a. releaselevel v = RELEASE_FINAL \<Longrightarrow> arch v = Some a \<Longrightarrow> CHR ''-'' \<notin> set a"
  shows "Version_parse (Version_str v) = Inr v"
proof -
  note f = Version_new_Number_validated [OF v]
  note g = Version_validate_facts [OF f(1)]
  have mic: "micro n \<noteq> PyNone" "minor n \<noteq> WILDCARD"
    using g(1) by (auto simp: iswildcard_def split: if_splits)
  have nd: "CHR ''-'' \<notin> set (VersionNumber_str n)"
    using vn by (rule VersionNumber_str_no_dash)
  have pn: "VersionNumber_parse (VersionNumber_str n) = Inr n"
    using vn by (rule parse_str_valid)
  note again = Version_new_again [OF v]
  consider (none) "series v = None" "arch v = None"
    | (both) s a where "series v = Some s" "arch v = Some a" "s \<noteq> []" "a \<noteq> []"
    using g(4) f(4) f(5) by (cases "series v"; cases "arch v") auto
  then show ?thesis
  proof cases
    case none
    show ?thesis
    proof (cases "releaselevel v = RELEASE_FINAL")
      case True
      have "Version_str v = VersionNumber_str n"
        using none True f(2) by (simp add: Version_str_def)
      moreover have "Version_parse (VersionNumber_str n) = Version_new (Number n) None None None"
        using nd pn by (rule Version_parse_no_tail)
      moreover have "Version_new (Number n) None None None = Inr v"
        using Version_new_final_default [OF v True] none by simp
      ultimately show ?thesis by simp
    next
      case False
      then have dev: "is_dev_releaselevel (releaselevel v)"
        using g(2,3) by (simp add: is_valid_releaselevel_def)
      have tail: "parse_tail (releaselevel v) = (releaselevel v, None, None)"
        using dev_no_dash [OF dev] by (rule parse_tail_one)
      have new: "Version_new (Number n) (Some (releaselevel v)) None None = Inr v"
        using again none by simp
      have "Version_str v =
          (if micro n = PyInt 0 then fst (str_rpartition CHR ''.'' (VersionNumber_str n))
           else VersionNumber_str n) @ CHR ''-'' # releaselevel v"
        using none False f(2) by (simp add: Version_str_def)
      then show ?thesis using dev_str_then_parse [OF vn mic dev tail new] by simp
    qed
  next
    case both
    have sd: "CHR ''-'' \<notin> set s" using ds both(1) by blast
    show ?thesis
    proof (cases "releaselevel v = RELEASE_FINAL")
      case True
      have ad: "CHR ''-'' \<notin> set a" using da True both(2) by blast
      have "Version_str v = VersionNumber_str n @ ''-'' @ s @ ''-'' @ a"
        using both True f(2) by (simp add: Version_str_def)
      moreover have "Version_parse (VersionNumber_str n @ ''-'' @ s @ ''-'' @ a) =
          (case VersionNumber_parse (VersionNumber_str n) of
             Inl e \<Rightarrow> Inl e
           | Inr num \<Rightarrow> Version_new (Number num) (Some RELEASE_FINAL) (Some s) (Some a))"
        using nd sd ad by (rule Version_parse_number_series_arch)
      moreover have "Version_new (Number n) (Some RELEASE_FINAL) (Some s) (Some a) = Inr v"
        using again both True by simp
      ultimately show ?thesis using pn by simp
    next
      case False
      then have dev: "is_dev_releaselevel (releaselevel v)"
        using g(2,3) by (simp add: is_valid_releaselevel_def)
      have tail: "parse_tail (releaselevel v @ CHR ''-'' # s @ CHR ''-'' # a)
                    = (releaselevel v, Some s, Some a)"
        using dev_no_dash [OF dev] sd by (rule parse_tail_three)
      have new: "Version_new (Number n) (Some (releaselevel v)) (Some s) (Some a) = Inr v"
        using again both by simp
      have "Version_str v =
          (if micro n = PyInt 0 then fst (str_rpartition CHR ''.'' (VersionNumber_str n))
           else VersionNumber_str n) @ CHR ''-'' # releaselevel v @ CHR ''-'' # s @ CHR ''-'' # a"
        using both False f(2) by (simp add: Version_str_def)
      then show ?thesis using dev_str_then_parse [OF vn mic dev tail new] by simp
    qed
  qed
qed

subsection \<open>The numeric token parser\<close>

text \<open>
  C3. A token that is not empty, not a wildcard marker and not a base-10 integer is
  claimed to come back verbatim from the numeric token parser. For the string \<open>"XXX"\<close>
  the parser does not return: the \<open>ValueError\<close> of the integer conversion leaves it.
\<close>

theorem parse_number_not_number_raises:
  "parse_number (PyStr ''XXX'') = Inl (ValueError InvalidLiteral)"
  by code_simp

subsection \<open>Version numbers\<close>

text \<open>
  C10. \<open>VersionNumber(0, 0, "x")\<close> and \<open>VersionNumber(0, "x")\<close> are constructed: with major
  and minor both 0, validation gives the all-zero rejection exactly when micro is 0 or
  unset.
\<close>

theorem all_zero_check_skips_wildcard:
  "VersionNumber_new (PyInt 0) (PyInt 0) (PyStr ''x'')
     = Inr \<lparr>major = PyInt 0, minor = PyInt 0, micro = PyStr ''x''\<rparr>
   \<and> VersionNumber_new (PyInt 0) (PyStr ''x'') PyNone
     = Inr \<lparr>major = PyInt 0, minor = PyStr ''x'', micro = PyNone\<rparr>
   \<and> ((VersionNumber_validate \<lparr>major = PyInt 0, minor = PyInt 0, micro = m\<rparr>
          = Inl (ValueError AllUnset))
        = (m = PyInt 0 \<or> m = PyNone))"
proof (intro conjI)
  show "VersionNumber_new (PyInt 0) (PyInt 0) (PyStr ''x'')
          = Inr \<lparr>major = PyInt 0, minor = PyInt 0, micro = PyStr ''x''\<rparr>"
    by code_simp
  show "VersionNumber_new (PyInt 0) (PyStr ''x'') PyNone
          = Inr \<lparr>major = PyInt 0, minor = PyStr ''x'', micro = PyNone\<rparr>"
    by code_simp
  show "(VersionNumber_validate \<lparr>major = PyInt 0, minor = PyInt 0, micro = m\<rparr>
           = Inl (ValueError AllUnset))
        = (m = PyInt 0 \<or> m = PyNone)"
    by (cases m) (auto simp: VersionNumber_validate_def WILDCARD_def)
qed

theorem all_zero_check_skips_wildcard_witness:
  "VersionNumber_validate \<lparr>major = PyInt 0, minor = PyInt 0, micro = PyStr ''x''\<rparr>
     \<noteq> Inl (ValueError AllUnset)
   \<and> VersionNumber_validate \<lparr>major = PyInt 0, minor = PyInt 0, micro = PyInt 0\<rparr>
     = Inl (ValueError AllUnset)"
  using all_zero_check_skips_wildcard [of "PyStr ''x''"]
    all_zero_check_skips_wildcard [of "PyInt 0"]
  by simp

text \<open>
  C4. A version number that was constructed (with a wildcard minor, a wildcard micro, an
  unset micro, or three integers) is read back by \<open>VersionNumber.parse\<close> from its own
  text: the parse succeeds and gives the same number.
\<close>

theorem VersionNumber_roundtrip:
  "VersionNumber_new a b c = Inr v \<Longrightarrow> VersionNumber_parse (VersionNumber_str v) = Inr v"
  using VersionNumber_new_valid parse_str_valid by blast

theorem VersionNumber_roundtrip_witness:
  "VersionNumber_parse (VersionNumber_str \<lparr>major = PyInt 1, minor = PyStr ''x'', micro = PyNone\<rparr>)
     = Inr \<lparr>major = PyInt 1, minor = PyStr ''x'', micro = PyNone\<rparr>
   \<and> VersionNumber_parse (VersionNumber_str \<lparr>major = PyInt 1, minor = PyInt 2, micro = PyStr ''x''\<rparr>)
     = Inr \<lparr>major = PyInt 1, minor = PyInt 2, micro = PyStr ''x''\<rparr>
   \<and> VersionNumber_parse (VersionNumber_str \<lparr>major = PyInt 1, minor = PyInt 2, micro = PyNone\<rparr>)
     = Inr \<lparr>major = PyInt 1, minor = PyInt 2, micro = PyNone\<rparr>
   \<and> VersionNumber_parse (VersionNumber_str \<lparr>major = PyInt 1, minor = PyInt 25, micro = PyInt 6\<rparr>)
     = Inr \<lparr>major = PyInt 1, minor = PyInt 25, micro = PyInt 6\<rparr>"
proof -
  have h1: "VersionNumber_new (PyInt 1) (PyStr ''X'') PyNone
              = Inr \<lparr>major = PyInt 1, minor = PyStr ''x'', micro = PyNone\<rparr>"
    by code_simp
  have h2: "VersionNumber_new (PyInt 1) (PyInt 2) (PyStr ''*'')
              = Inr \<lparr>major = PyInt 1, minor = PyInt 2, micro = PyStr ''x''\<rparr>"
    by code_simp
  have h3: "VersionNumber_new (PyInt 1) (PyInt 2) PyNone
              = Inr \<lparr>major = PyInt 1, minor = PyInt 2, micro = PyNone\<rparr>"
    by code_simp
  have h4: "VersionNumber_new (PyStr ''1'') (PyStr ''25'') (PyStr ''6'')
              = Inr \<lparr>major = PyInt 1, minor = PyInt 25, micro = PyInt 6\<rparr>"
    by code_simp
  show ?thesis
    using VersionNumber_roundtrip [OF h1] VersionNumber_roundtrip [OF h2]
      VersionNumber_roundtrip [OF h3] VersionNumber_roundtrip [OF h4]
    by simp
qed

text \<open>
  C8. \<open>VersionNumber.parse\<close> is claimed to trim its input, so that a text and its trimmed
  form parse alike. It does not trim: \<open>"1.x "\<close> is rejected although \<open>"1.x"\<close> is
  accepted, because the token \<open>"x "\<close> is no wildcard marker and no integer literal.
\<close>

theorem VersionNumber_parse_trailing_space_counterexample:
  "strip ''1.x '' = ''1.x''
   \<and> VersionNumber_parse ''1.x'' = Inr \<lparr>major = PyInt 1, minor = PyStr ''x'', micro = PyNone\<rparr>
   \<and> VersionNumber_parse ''1.x '' = Inl (ValueError InvalidLiteral)"
  by code_simp

text \<open>
  C8, as amended. Whitespace around the text is tolerated through the integer
  conversion of the components. Whenever a text parses, its trimmed form parses to the
  same number. Whenever the trimmed form parses, the text parses to the same number,
  provided that the number has no wildcard field or the text does not end in whitespace.
  So \<open>"  1.2  "\<close> parses like \<open>"1.2"\<close> and \<open>" 1.x"\<close> like \<open>"1.x"\<close>.
\<close>

theorem VersionNumber_parse_whitespace:
  "(VersionNumber_parse s = Inr v \<longrightarrow> VersionNumber_parse (strip s) = Inr v)
   \<and> (VersionNumber_parse (strip s) = Inr v
        \<and> ((minor v \<noteq> WILDCARD \<and> micro v \<noteq> WILDCARD) \<or> s = [] \<or> \<not> isspace (last s))
      \<longrightarrow> VersionNumber_parse s = Inr v)
   \<and> VersionNumber_parse ''  1.2  '' = VersionNumber_parse ''1.2''
   \<and> VersionNumber_parse '' 1.x'' = VersionNumber_parse ''1.x''"
proof -
  have "VersionNumber_parse ''  1.2  '' = VersionNumber_parse ''1.2''"
    by code_simp
  moreover have "VersionNumber_parse '' 1.x'' = VersionNumber_parse ''1.x''"
    by code_simp
  ultimately show ?thesis using parse_strip [of s v] by blast
qed

theorem VersionNumber_parse_whitespace_witness:
  "VersionNumber_parse (strip ''  1.2  '')
     = Inr \<lparr>major = PyInt 1, minor = PyInt 2, micro = PyNone\<rparr>
   \<and> VersionNumber_parse ''  1.2  ''
     = Inr \<lparr>major = PyInt 1, minor = PyInt 2, micro = PyNone\<rparr>
   \<and> VersionNumber_parse '' 1.x''
     = Inr \<lparr>major = PyInt 1, minor = PyStr ''x'', micro = PyNone\<rparr>
   \<and> VersionNumber_parse (strip '' 1.x'')
     = Inr \<lparr>major = PyInt 1, minor = PyStr ''x'', micro = PyNone\<rparr>"
proof -
  have h1: "VersionNumber_parse (strip ''  1.2  '')
              = Inr \<lparr>major = PyInt 1, minor = PyInt 2, micro = PyNone\<rparr>"
    by code_simp
  have h2: "minor \<lparr>major = PyInt 1, minor = PyInt 2, micro = PyNone\<rparr> \<noteq> WILDCARD
            \<and> micro \<lparr>major = PyInt 1, minor = PyInt 2, micro = PyNone\<rparr> \<noteq> WILDCARD"
    by (simp add: WILDCARD_def)
  have h3: "VersionNumber_parse '' 1.x''
              = Inr \<lparr>major = PyInt 1, minor = PyStr ''x'', micro = PyNone\<rparr>"
    by code_simp
  have a: "VersionNumber_parse ''  1.2  ''
             = Inr \<lparr>major = PyInt 1, minor = PyInt 2, micro = PyNone\<rparr>"
    using h1 h2
      VersionNumber_parse_whitespace [of "''  1.2  ''"
        "\<lparr>major = PyInt 1, minor = PyInt 2, micro = PyNone\<rparr>"]
    by blast
  have b: "VersionNumber_parse (strip '' 1.x'')
             = Inr \<lparr>major = PyInt 1, minor = PyStr ''x'', micro = PyNone\<rparr>"
    using h3
      VersionNumber_parse_whitespace [of "'' 1.x''"
        "\<lparr>major = PyInt 1, minor = PyStr ''x'', micro = PyNone\<rparr>"]
    by blast
  show ?thesis using h1 a h3 b by blast
qed

text \<open>
  C2. Matching is claimed never to fail on valid operands. The pattern \<open>0.x\<close> and the
  candidate \<open>0.0.5\<close> are both constructed, and matching them raises: replacing the
  wildcard minor validates the intermediate number \<open>0.0\<close>, which is rejected as all zero.
\<close>

theorem match_wildcard_minor_raises:
  "VersionNumber_new (PyInt 0) (PyStr ''x'') PyNone
     = Inr \<lparr>major = PyInt 0, minor = PyStr ''x'', micro = PyNone\<rparr>
   \<and> VersionNumber_new (PyInt 0) (PyInt 0) (PyInt 5)
     = Inr \<lparr>major = PyInt 0, minor = PyInt 0, micro = PyInt 5\<rparr>
   \<and> match \<lparr>major = PyInt 0, minor = PyStr ''x'', micro = PyNone\<rparr>
            \<lparr>major = PyInt 0, minor = PyInt 0, micro = PyInt 5\<rparr>
     = Inl (ValueError AllUnset)"
  by code_simp

subsection \<open>Versions\<close>

text \<open>
  C7. \<open>Version.parse("1.2-xenial-amd64")\<close> fails: the number \<open>1.2\<close> has no micro, the two
  trailing tokens are read as series and arch with level \<open>final\<close>, so the micro stays
  unset, the number is a wildcard and the version is rejected.
\<close>

theorem Version_parse_two_tokens_without_micro_fails:
  "Version_parse ''1.2-xenial-amd64'' = Inl (ValueError WildcardVersion)
   \<and> VersionNumber_parse ''1.2'' = Inr \<lparr>major = PyInt 1, minor = PyInt 2, micro = PyNone\<rparr>
   \<and> parse_tail ''xenial-amd64'' = (''final'', Some ''xenial'', Some ''amd64'')
   \<and> \<not> is_dev_releaselevel ''final''
   \<and> iswildcard \<lparr>major = PyInt 1, minor = PyInt 2, micro = PyNone\<rparr>"
  by code_simp

text \<open>
  C5. When the number read by \<open>Version.parse\<close> has no micro and the level that the
  text after it resolves to is a dev tag, the version is built from the number with
  micro replaced by 0 (the replacement itself is rejected when the minor is the wildcard,
  and then no version is built). \<open>Version.parse("1.2-beta2-xenial-amd64")\<close> equals
  \<open>Version(VersionNumber(1,2,0), "beta2", "xenial", "amd64")\<close>, which is constructed.
\<close>

theorem Version_parse_forces_micro:
  "(VersionNumber_parse numstr = Inr n \<and> micro n = PyNone \<and> CHR ''-'' \<notin> set numstr
      \<and> parse_tail rest = (level, ser, ar) \<and> is_dev_releaselevel level
    \<longrightarrow> Version_parse (numstr @ ''-'' @ rest) =
          (if minor n = WILDCARD then Inl (ValueError UnexpectedMicro)
           else Version_new (Number (n\<lparr>micro := PyInt 0\<rparr>)) (Some level) ser ar))
   \<and> Version_parse ''1.2-beta2-xenial-amd64''
       = Version_new (Number \<lparr>major = PyInt 1, minor = PyInt 2, micro = PyInt 0\<rparr>)
           (Some ''beta2'') (Some ''xenial'') (Some ''amd64'')
   \<and> Version_parse ''1.2-beta2-xenial-amd64''
       = Inr \<lparr>number = \<lparr>major = PyInt 1, minor = PyInt 2, micro = PyInt 0\<rparr>,
              releaselevel = ''beta2'', series = Some ''xenial'', arch = Some ''amd64''\<rparr>"
proof (intro conjI impI)
  assume "VersionNumber_parse numstr = Inr n \<and> micro n = PyNone \<and> CHR ''-'' \<notin> set numstr
      \<and> parse_tail rest = (level, ser, ar) \<and> is_dev_releaselevel level"
  then show "Version_parse (numstr @ ''-'' @ rest) =
          (if minor n = WILDCARD then Inl (ValueError UnexpectedMicro)
           else Version_new (Number (n\<lparr>micro := PyInt 0\<rparr>)) (Some level) ser ar)"
    using Version_parse_dev_unset_micro by blast
next
  show "Version_parse ''1.2-beta2-xenial-amd64''
       = Version_new (Number \<lparr>major = PyInt 1, minor = PyInt 2, micro = PyInt 0\<rparr>)
           (Some ''beta2'') (Some ''xenial'') (Some ''amd64'')"
    by code_simp
next
  show "Version_parse ''1.2-beta2-xenial-amd64''
       = Inr \<lparr>number = \<lparr>major = PyInt 1, minor = PyInt 2, micro = PyInt 0\<rparr>,
              releaselevel = ''beta2'', series = Some ''xenial'', arch = Some ''amd64''\<rparr>"
    by code_simp
qed

theorem Version_parse_forces_micro_witness:
  "VersionNumber_parse ''1.2'' = Inr \<lparr>major = PyInt 1, minor = PyInt 2, micro = PyNone\<rparr>
   \<and> parse_tail ''beta2-xenial-amd64'' = (''beta2'', Some ''xenial'', Some ''amd64'')
   \<and> is_dev_releaselevel ''beta2''
   \<and> Version_parse (''1.2'' @ ''-'' @ ''beta2-xenial-amd64'')
       = Version_new (Number \<lparr>major = PyInt 1, minor = PyInt 2, micro = PyInt 0\<rparr>)
           (Some ''beta2'') (Some ''xenial'') (Some ''amd64'')"
proof -
  have h1: "VersionNumber_parse ''1.2''
              = Inr \<lparr>major = PyInt 1, minor = PyInt 2, micro = PyNone\<rparr>"
    by code_simp
  have h2: "parse_tail ''beta2-xenial-amd64'' = (''beta2'', Some ''xenial'', Some ''amd64'')"
    by code_simp
  have h3: "is_dev_releaselevel ''beta2''"
    by code_simp
  have h4: "CHR ''-'' \<notin> set ''1.2''"
    by simp
  have h5: "PyInt 2 \<noteq> WILDCARD"
    by (simp add: WILDCARD_def)
  show ?thesis
    using h1 h2 h3 h4 h5
      Version_parse_forces_micro [of "''1.2''"
        "\<lparr>major = PyInt 1, minor = PyInt 2, micro = PyNone\<rparr>"
        "''beta2-xenial-amd64''" "''beta2''" "Some ''xenial''" "Some ''amd64''"]
    by simp
qed

text \<open>
  C6. When the text after the number consists of exactly two tokens separated by a dash,
  \<open>Version.parse\<close> takes the first as series, the second as arch, and \<open>final\<close> as level.
  \<open>Version.parse("1.2.3-xenial-amd64")\<close> equals
  \<open>Version(VersionNumber(1,2,3), "final", "xenial", "amd64")\<close>, which is constructed.
\<close>

theorem Version_parse_series_arch:
  "(CHR ''-'' \<notin> set numstr \<and> CHR ''-'' \<notin> set t1 \<and> CHR ''-'' \<notin> set t2
    \<longrightarrow> Version_parse (numstr @ ''-'' @ t1 @ ''-'' @ t2) =
          (case VersionNumber_parse numstr of
             Inl e \<Rightarrow> Inl e
           | Inr num \<Rightarrow> Version_new (Number num) (Some ''final'') (Some t1) (Some t2)))
   \<and> Version_parse ''1.2.3-xenial-amd64''
       = Version_new (Number \<lparr>major = PyInt 1, minor = PyInt 2, micro = PyInt 3\<rparr>)
           (Some ''final'') (Some ''xenial'') (Some ''amd64'')
   \<and> Version_parse ''1.2.3-xenial-amd64''
       = Inr \<lparr>number = \<lparr>major = PyInt 1, minor = PyInt 2, micro = PyInt 3\<rparr>,
              releaselevel = ''final'', series = Some ''xenial'', arch = Some ''amd64''\<rparr>"
proof (intro conjI impI)
  assume "CHR ''-'' \<notin> set numstr \<and> CHR ''-'' \<notin> set t1 \<and> CHR ''-'' \<notin> set t2"
  then show "Version_parse (numstr @ ''-'' @ t1 @ ''-'' @ t2) =
          (case VersionNumber_parse numstr of
             Inl e \<Rightarrow> Inl e
           | Inr num \<Rightarrow> Version_new (Number num) (Some ''final'') (Some t1) (Some t2))"
    using Version_parse_number_series_arch [of numstr t1 t2, unfolded RELEASE_FINAL_def] by simp
next
  show "Version_parse ''1.2.3-xenial-amd64''
       = Version_new (Number \<lparr>major = PyInt 1, minor = PyInt 2, micro = PyInt 3\<rparr>)
           (Some ''final'') (Some ''xenial'') (Some ''amd64'')"
    by code_simp
next
  show "Version_parse ''1.2.3-xenial-amd64''
       = Inr \<lparr>number = \<lparr>major = PyInt 1, minor = PyInt 2, micro = PyInt 3\<rparr>,
              releaselevel = ''final'', series = Some ''xenial'', arch = Some ''amd64''\<rparr>"
    by code_simp
qed

theorem Version_parse_series_arch_witness:
  "CHR ''-'' \<notin> set ''1.2.3'' \<and> CHR ''-'' \<notin> set ''xenial'' \<and> CHR ''-'' \<notin> set ''amd64''
   \<and> VersionNumber_parse ''1.2.3''
       = Inr \<lparr>major = PyInt 1, minor = PyInt 2, micro = PyInt 3\<rparr>
   \<and> Version_parse (''1.2.3'' @ ''-'' @ ''xenial'' @ ''-'' @ ''amd64'')
       = Version_new (Number \<lparr>major = PyInt 1, minor = PyInt 2, micro = PyInt 3\<rparr>)
           (Some ''final'') (Some ''xenial'') (Some ''amd64'')"
proof -
  have h1: "VersionNumber_parse ''1.2.3''
              = Inr \<lparr>major = PyInt 1, minor = PyInt 2, micro = PyInt 3\<rparr>"
    by code_simp
  have h2: "CHR ''-'' \<notin> set ''1.2.3'' \<and> CHR ''-'' \<notin> set ''xenial''
              \<and> CHR ''-'' \<notin> set ''amd64''"
    by simp
  show ?thesis
    using h1 h2 Version_parse_series_arch [of "''1.2.3''" "''xenial''" "''amd64''"]
    by simp
qed

text \<open>
  C9. A version that was constructed, directly or by \<open>Version.parse\<close>, has series and
  arch both present or both absent; constructing one with a series and no arch fails,
  and so does constructing one with an arch and no series.
\<close>

theorem series_and_arch_together:
  "(Version_new num level ser ar = Inr v \<longrightarrow> (series v = None) = (arch v = None))
   \<and> (Version_parse raw = Inr w \<longrightarrow> (series w = None) = (arch w = None))
   \<and> (present ser \<and> \<not> present ar \<longrightarrow> (\<exists>e. Version_new num level ser ar = Inl e))
   \<and> (present ar \<and> \<not> present ser \<longrightarrow> (\<exists>e. Version_new num level ser ar = Inl e))"
  using Version_new_both Version_parse_calls_new
    Version_new_series_without_arch Version_new_arch_without_series
  by blast

theorem series_and_arch_together_witness:
  "Version_parse ''1.2.3-beta2-xenial-amd64''
     = Inr \<lparr>number = \<lparr>major = PyInt 1, minor = PyInt 2, micro = PyInt 3\<rparr>,
            releaselevel = ''beta2'', series = Some ''xenial'', arch = Some ''amd64''\<rparr>
   \<and> Version_new (Number \<lparr>major = PyInt 1, minor = PyInt 2, micro = PyInt 3\<rparr>)
        (Some ''beta3'') None None
     = Inr \<lparr>number = \<lparr>major = PyInt 1, minor = PyInt 2, micro = PyInt 3\<rparr>,
            releaselevel = ''beta3'', series = None, arch = None\<rparr>
   \<and> (\<exists>e. Version_new (Number \<lparr>major = PyInt 1, minor = PyInt 2, micro = PyInt 3\<rparr>)
            (Some ''beta3'') (Some ''xenial'') None = Inl e)
   \<and> (\<exists>e. Version_new (Number \<lparr>major = PyInt 1, minor = PyInt 2, micro = PyInt 3\<rparr>)
            (Some ''beta3'') None (Some ''amd64'') = Inl e)"
proof -
  have h1: "Version_parse ''1.2.3-beta2-xenial-amd64''
     = Inr \<lparr>number = \<lparr>major = PyInt 1, minor = PyInt 2, micro = PyInt 3\<rparr>,
            releaselevel = ''beta2'', series = Some ''xenial'', arch = Some ''amd64''\<rparr>"
    by code_simp
  have h2: "Version_new (Number \<lparr>major = PyInt 1, minor = PyInt 2, micro = PyInt 3\<rparr>)
        (Some ''beta3'') None None
     = Inr \<lparr>number = \<lparr>major = PyInt 1, minor = PyInt 2, micro = PyInt 3\<rparr>,
            releaselevel = ''beta3'', series = None, arch = None\<rparr>"
    by code_simp
  have h3: "present (Some ''xenial'') \<and> \<not> present None"
    by simp
  have h4: "present (Some ''amd64'') \<and> \<not> present None"
    by simp
  show ?thesis
    using h1 h2 h3 h4
      series_and_arch_together [of
        "Number \<lparr>major = PyInt 1, minor = PyInt 2, micro = PyInt 3\<rparr>" "Some ''beta3''"
        None None
        "\<lparr>number = \<lparr>major = PyInt 1, minor = PyInt 2, micro = PyInt 3\<rparr>,
            releaselevel = ''beta3'', series = None, arch = None\<rparr>"
        "''1.2.3-beta2-xenial-amd64''"
        "\<lparr>number = \<lparr>major = PyInt 1, minor = PyInt 2, micro = PyInt 3\<rparr>,
            releaselevel = ''beta2'', series = Some ''xenial'', arch = Some ''amd64''\<rparr>"]
      series_and_arch_together [of
        "Number \<lparr>major = PyInt 1, minor = PyInt 2, micro = PyInt 3\<rparr>" "Some ''beta3''"
        "Some ''xenial''" None]
      series_and_arch_together [of
        "Number \<lparr>major = PyInt 1, minor = PyInt 2, micro = PyInt 3\<rparr>" "Some ''beta3''"
        None "Some ''amd64''"]
    by simp
qed

text \<open>
  C1. Every constructed version is claimed to be read back by \<open>Version.parse\<close> from its
  own text. Any series is accepted at construction, and one that contains a dash is
  split on reading: the version \<open>1.2.3\<close> with series \<open>my-series\<close> and arch \<open>amd64\<close> is
  written as \<open>1.2.3-my-series-amd64\<close>, which is rejected (\<open>my\<close> is taken for the level).
\<close>

theorem Version_roundtrip_dash_counterexample:
  "VersionNumber_new (PyInt 1) (PyInt 2) (PyInt 3)
     = Inr \<lparr>major = PyInt 1, minor = PyInt 2, micro = PyInt 3\<rparr>
   \<and> Version_new (Number \<lparr>major = PyInt 1, minor = PyInt 2, micro = PyInt 3\<rparr>)
        (Some ''final'') (Some ''my-series'') (Some ''amd64'')
     = Inr \<lparr>number = \<lparr>major = PyInt 1, minor = PyInt 2, micro = PyInt 3\<rparr>,
            releaselevel = ''final'', series = Some ''my-series'', arch = Some ''amd64''\<rparr>
   \<and> Version_str \<lparr>number = \<lparr>major = PyInt 1, minor = PyInt 2, micro = PyInt 3\<rparr>,
            releaselevel = ''final'', series = Some ''my-series'', arch = Some ''amd64''\<rparr>
     = ''1.2.3-my-series-amd64''
   \<and> Version_parse ''1.2.3-my-series-amd64'' = Inl (ValueError InvalidReleaselevel)"
  by code_simp

text \<open>
  C1, as amended. A version constructed from a constructed version number, whose series
  contains no dash and whose arch contains no dash when the release level is \<open>final\<close>,
  is read back by \<open>Version.parse\<close> from its own text: the parse succeeds and gives the
  same version.
\<close>

theorem Version_roundtrip:
  assumes "VersionNumber_new a b c = Inr n"
    and "Version_new (Number n) level ser ar = Inr v"
    and "\<forall>s. series v = Some s \<longrightarrow> CHR ''-'' \<notin> set s"
    and "releaselevel v = RELEASE_FINAL \<longrightarrow> (\<forall>s. arch v = Some s \<longrightarrow> CHR ''-'' \<notin> set s)"
  shows "Version_parse (Version_str v) = Inr v"
  using VersionNumber_new_valid [OF assms(1)] assms(2) assms(3) assms(4)
  by (intro str_then_parse [of n level ser ar v]) blast+

theorem Version_roundtrip_witness:
  "Version_new (Number \<lparr>major = PyInt 1, minor = PyInt 2, micro = PyInt 0\<rparr>)
        (Some ''BETA2'') (Some ''Xenial'') (Some ''arm-v7'')
     = Inr \<lparr>number = \<lparr>major = PyInt 1, minor = PyInt 2, micro = PyInt 0\<rparr>,
            releaselevel = ''beta2'', series = Some ''xenial'', arch = Some ''arm-v7''\<rparr>
   \<and> Version_parse
        (Version_str \<lparr>number = \<lparr>major = PyInt 1, minor = PyInt 2, micro = PyInt 0\<rparr>,
            releaselevel = ''beta2'', series = Some ''xenial'', arch = Some ''arm-v7''\<rparr>)
     = Inr \<lparr>number = \<lparr>major = PyInt 1, minor = PyInt 2, micro = PyInt 0\<rparr>,
            releaselevel = ''beta2'', series = Some ''xenial'', arch = Some ''arm-v7''\<rparr>
   \<and> Version_new (Number \<lparr>major = PyInt 1, minor = PyInt 2, micro = PyInt 3\<rparr>)
        None (Some ''xenial'') (Some ''amd64'')
     = Inr \<lparr>number = \<lparr>major = PyInt 1, minor = PyInt 2, micro = PyInt 3\<rparr>,
            releaselevel = ''final'', series = Some ''xenial'', arch = Some ''amd64''\<rparr>
   \<and> Version_parse
        (Version_str \<lparr>number = \<lparr>major = PyInt 1, minor = PyInt 2, micro = PyInt 3\<rparr>,
            releaselevel = ''final'', series = Some ''xenial'', arch = Some ''amd64''\<rparr>)
     = Inr \<lparr>number = \<lparr>major = PyInt 1, minor = PyInt 2, micro = PyInt 3\<rparr>,
            releaselevel = ''final'', series = Some ''xenial'', arch = Some ''amd64''\<rparr>"
proof -
  let ?n = "\<lparr>major = PyInt 1, minor = PyInt 2, micro = PyInt 0\<rparr>"
  let ?v = "\<lparr>number = ?n, releaselevel = ''beta2'', series = Some ''xenial'',
             arch = Some ''arm-v7''\<rparr>"
  let ?m = "\<lparr>major = PyInt 1, minor = PyInt 2, micro = PyInt 3\<rparr>"
  let ?w = "\<lparr>number = ?m, releaselevel = ''final'', series = Some ''xenial'',
             arch = Some ''amd64''\<rparr>"
  have n: "VersionNumber_new (PyInt 1) (PyInt 2) (PyInt 0) = Inr ?n"
    by code_simp
  have v: "Version_new (Number ?n) (Some ''BETA2'') (Some ''Xenial'') (Some ''arm-v7'') = Inr ?v"
    by code_simp
  have vs: "\<forall>s. series ?v = Some s \<longrightarrow> CHR ''-'' \<notin> set s"
    by simp
  have va: "releaselevel ?v = RELEASE_FINAL \<longrightarrow> (\<forall>s. arch ?v = Some s \<longrightarrow> CHR ''-'' \<notin> set s)"
    by (simp add: RELEASE_FINAL_def)
  have m: "VersionNumber_new (PyStr ''1'') (PyStr ''2'') (PyStr ''3'') = Inr ?m"
    by code_simp
  have w: "Version_new (Number ?m) None (Some ''xenial'') (Some ''amd64'') = Inr ?w"
    by code_simp
  have ws: "\<forall>s. series ?w = Some s \<longrightarrow> CHR ''-'' \<notin> set s"
    by simp
  have wa: "releaselevel ?w = RELEASE_FINAL \<longrightarrow> (\<forall>s. arch ?w = Some s \<longrightarrow> CHR ''-'' \<notin> set s)"
    by simp
  show ?thesis
    using v w Version_roundtrip [OF n v vs va] Version_roundtrip [OF m w ws wa]
    by simp
qed

end
